theory Spec2Isabelle
  imports Complex_Main "HOL-Library.AList" "HOL-Library.Multiset"
begin

section \<open>Strings\<close>

text \<open>
  A JavaScript string is modelled as a \<^typ>\<open>string\<close>: one \<^typ>\<open>char\<close> per code unit, for the
  code units below 256. Code units above that range (among them the Unicode space
  characters that \<^verbatim>\<open>trim()\<close> also strips) are outside the model.
\<close>

definition LF :: char where
  "LF = CHR 0x0A"

definition CR :: char where
  "CR = CHR 0x0D"

text \<open>The decimal rendering of a non-negative integer, as a template literal produces it.\<close>

definition digit_char :: "nat \<Rightarrow> char" where
  "digit_char d = ''0123456789'' ! d"

fun show_nat :: "nat \<Rightarrow> string" where
  "show_nat n = (if n < 10 then [digit_char n] else show_nat (n div 10) @ [digit_char (n mod 10)])"

declare show_nat.simps [simp del]

definition digit_val :: "char \<Rightarrow> nat" where
  "digit_val c = of_char c - 48"

definition read_nat :: "string \<Rightarrow> nat" where
  "read_nat s = foldl (\<lambda>a c. 10 * a + digit_val c) 0 s"

section \<open>Columns and unique column ids\<close>

text \<open>\<^verbatim>\<open>type Column = { id: string; title: string }\<close>\<close>

record Column =
  column_id :: string
  column_title :: string

text \<open>The candidate \<^verbatim>\<open>`${baseId}-${counter}`\<close>.\<close>

definition suffixed :: "string \<Rightarrow> nat \<Rightarrow> string" where
  "suffixed baseId counter = baseId @ ''-'' @ show_nat counter"

lemma digit_val_digit_char: "d < 10 \<Longrightarrow> digit_val (digit_char d) = d"
proof -
  assume "d < 10"
  then consider "d = 0" | "d = 1" | "d = 2" | "d = 3" | "d = 4" | "d = 5" | "d = 6" | "d = 7"
    | "d = 8" | "d = 9"
    by atomize_elim presburger
  then show ?thesis
    by cases (simp_all add: digit_val_def digit_char_def)
qed

lemma read_nat_snoc: "read_nat (s @ [c]) = 10 * read_nat s + digit_val c"
  by (simp add: read_nat_def)

lemma read_show_nat: "read_nat (show_nat n) = n"
proof (induction n rule: show_nat.induct)
  case (1 n)
  show ?case
  proof (cases "n < 10")
    case True
    then show ?thesis
      by (subst show_nat.simps) (simp add: read_nat_def digit_val_digit_char)
  next
    case False
    then have "read_nat (show_nat (n div 10)) = n div 10"
      using "1" by simp
    with False show ?thesis
      by (subst show_nat.simps) (simp add: read_nat_snoc digit_val_digit_char)
  qed
qed

lemma show_nat_inj: "show_nat m = show_nat n \<Longrightarrow> m = n"
  by (metis read_show_nat)

lemma suffixed_inj: "suffixed b m = suffixed b n \<Longrightarrow> m = n"
  by (simp add: suffixed_def show_nat_inj)

lemma finite_suffixed: "finite {j. suffixed b j \<in> set ids}"
proof -
  have "inj (suffixed b)"
    by (rule injI) (rule suffixed_inj)
  then have "finite (suffixed b -` set ids)"
    by (intro finite_vimageI) simp_all
  then show ?thesis
    by (simp add: vimage_def)
qed

text \<open>
  The loop of \<^verbatim>\<open>ensureUniqueColumnId\<close>:
  \<^verbatim>\<open>while (existing.has(candidate)) { candidate = `${baseId}-${counter++}`; }\<close>
  The set \<^verbatim>\<open>existing\<close> is given by the list of column ids.
\<close>

function unique_loop :: "string list \<Rightarrow> string \<Rightarrow> string \<Rightarrow> nat \<Rightarrow> string" where
  "unique_loop existing baseId candidate counter =
     (if candidate \<in> set existing
      then unique_loop existing baseId (suffixed baseId counter) (Suc counter)
      else candidate)"
  by pat_completeness auto

termination
proof (relation "measure (\<lambda>(existing, baseId, candidate, counter).
          card {j. counter \<le> j \<and> suffixed baseId j \<in> set existing}
          + (if candidate \<in> set existing then 1 else 0))", goal_cases)
  case 1
  show ?case by simp
next
  case (2 existing baseId candidate counter)
  let ?A = "{j. counter \<le> j \<and> suffixed baseId j \<in> set existing}"
  let ?B = "{j. Suc counter \<le> j \<and> suffixed baseId j \<in> set existing}"
  have fin: "finite ?B"
    by (rule finite_subset [OF _ finite_suffixed [of baseId existing]]) auto
  have "card ?B + (if suffixed baseId counter \<in> set existing then 1 else 0) = card ?A"
  proof (cases "suffixed baseId counter \<in> set existing")
    case True
    then have "?A = insert counter ?B"
      by (auto simp: Suc_le_eq le_less)
    moreover have "counter \<notin> ?B"
      by simp
    ultimately show ?thesis
      using fin True by simp
  next
    case False
    then have "?A = ?B"
      by (auto simp: Suc_le_eq le_less)
    with False show ?thesis by simp
  qed
  with 2 show ?case by simp
qed

declare unique_loop.simps [simp del]

definition ensureUniqueColumnId :: "Column list \<Rightarrow> string \<Rightarrow> string" where
  "ensureUniqueColumnId cols baseId = unique_loop (map column_id cols) baseId baseId 1"

lemma unique_loop_free: "candidate \<notin> set existing \<Longrightarrow> unique_loop existing b candidate n = candidate"
  by (subst unique_loop.simps) simp

lemma unique_loop_taken:
  "candidate \<in> set existing \<Longrightarrow>
   \<exists>k\<ge>n. unique_loop existing b candidate n = suffixed b k \<and> suffixed b k \<notin> set existing
         \<and> (\<forall>j. n \<le> j \<and> j < k \<longrightarrow> suffixed b j \<in> set existing)"
proof (induction existing b candidate n rule: unique_loop.induct)
  case (1 existing b candidate n)
  have step: "unique_loop existing b candidate n = unique_loop existing b (suffixed b n) (Suc n)"
    using "1.prems" by (subst unique_loop.simps) simp
  show ?case
  proof (cases "suffixed b n \<in> set existing")
    case False
    then have "unique_loop existing b candidate n = suffixed b n"
      using step by (simp add: unique_loop_free)
    with False show ?thesis
      by (intro exI [of _ n]) auto
  next
    case True
    from "1.IH" [OF "1.prems" True] obtain k where k: "Suc n \<le> k"
      "unique_loop existing b (suffixed b n) (Suc n) = suffixed b k"
      "suffixed b k \<notin> set existing"
      "\<forall>j. Suc n \<le> j \<and> j < k \<longrightarrow> suffixed b j \<in> set existing"
      by blast
    have "\<forall>j. n \<le> j \<and> j < k \<longrightarrow> suffixed b j \<in> set existing"
    proof (intro allI impI)
      fix j assume "n \<le> j \<and> j < k"
      then show "suffixed b j \<in> set existing"
        using True k(4) by (cases "j = n") auto
    qed
    with k step show ?thesis
      by (intro exI [of _ k]) simp
  qed
qed

section \<open>JSON values and the index document\<close>

text \<open>
  The values \<^verbatim>\<open>JSON.parse\<close> returns and the loosely typed records the operations receive.
  A number is a double: not-a-number, an infinity, or a finite value, kept as the rational it
  denotes. An object is the list of its own properties in the order in which they are
  enumerated.
\<close>

datatype number = NaN | NegInf | PosInf | Fin rat

datatype json =
    JNull
  | JBool bool
  | JNum number
  | JStr string
  | JArr "json list"
  | JObj "(string \<times> json) list"

text \<open>
  A property read \<^verbatim>\<open>value[key]\<close> on a parsed value, as far as \<^verbatim>\<open>normalizeIndex\<close> can tell the
  results apart: an own property of an object, or the element of an array at a canonical
  index. \<^verbatim>\<open>normalizeIndex\<close> asks of \<^verbatim>\<open>raw.columns\<close> and \<^verbatim>\<open>rawOrder[id]\<close> whether they are arrays
  and of \<^verbatim>\<open>column.id\<close> and \<^verbatim>\<open>column.title\<close> whether they are strings. \<^const>\<open>None\<close> stands for
  \<^verbatim>\<open>undefined\<close> and for every other read: a member inherited from a prototype is a function,
  a number (\<^verbatim>\<open>length\<close>), a one-character string under an index, or (under \<^verbatim>\<open>__proto__\<close>) the
  prototype itself. None of these is a string under the names \<^verbatim>\<open>id\<close> and \<^verbatim>\<open>title\<close>, and the
  only array among them is \<^verbatim>\<open>Array.prototype\<close> (read as \<^verbatim>\<open>rawOrder["__proto__"]\<close> when
  \<^verbatim>\<open>rawOrder\<close> is an array), which is empty, so that its filtered copy is the list \<open>[]\<close> that
  the other branch yields. Reading a property of \<^verbatim>\<open>null\<close> throws; the callers below check for
  it first.
\<close>

definition array_index :: "string \<Rightarrow> nat \<Rightarrow> nat option" where
  "array_index key n = find (\<lambda>i. show_nat i = key) [0..<n]"

fun get_prop :: "json \<Rightarrow> string \<Rightarrow> json option" where
  "get_prop (JObj props) key = map_of props key"
| "get_prop (JArr xs) key =
     (case array_index key (length xs) of Some i \<Rightarrow> Some (xs ! i) | None \<Rightarrow> None)"
| "get_prop _ key = None"

subsection \<open>Objects that the operations build\<close>

text \<open>
  The own properties of an ordinary object are enumerated (by \<^verbatim>\<open>JSON.stringify\<close> too) with the
  array indices first, in ascending order, and the other keys after them in the order of
  their creation. An array index is the canonical decimal text of a number below
  4294967295.
\<close>

definition is_index_key :: "string \<Rightarrow> bool" where
  "is_index_key key \<longleftrightarrow> show_nat (read_nat key) = key \<and> read_nat key < 4294967295"

fun insert_index :: "string \<Rightarrow> 'a \<Rightarrow> (string \<times> 'a) list \<Rightarrow> (string \<times> 'a) list" where
  "insert_index key v [] = [(key, v)]"
| "insert_index key v ((k, w) # al) =
     (if is_index_key k \<and> read_nat k < read_nat key then (k, w) # insert_index key v al
      else (key, v) # (k, w) # al)"

text \<open>
  Defining or overwriting an own property: the value of a key that is present is replaced
  where it stands (\<^const>\<open>AList.update\<close>), a new array index is put in its numeric place and any
  other new key at the end.
\<close>

definition obj_set :: "string \<Rightarrow> 'a \<Rightarrow> (string \<times> 'a) list \<Rightarrow> (string \<times> 'a) list" where
  "obj_set key v al =
     (if map_of al key = None \<and> is_index_key key then insert_index key v al
      else AList.update key v al)"

text \<open>
  An object created by \<^verbatim>\<open>{}\<close> and filled by assignments \<^verbatim>\<open>object[key] = value\<close>, the values
  being objects themselves (arrays of strings, or cards): its own properties, and the value
  that an assignment to \<^verbatim>\<open>__proto__\<close> has made its prototype, if any. \<^verbatim>\<open>Object.prototype\<close> has
  the accessor \<^verbatim>\<open>__proto__\<close>, whose setter replaces the prototype of the object and creates no
  own property; every other inherited member is a writable data property, so that an
  assignment under its name creates an own property like under any other name.
\<close>

type_synonym 'a object = "(string \<times> 'a) list \<times> 'a option"

definition assign :: "string \<Rightarrow> 'a \<Rightarrow> 'a object \<Rightarrow> 'a object" where
  "assign key v obj =
     (if key = ''__proto__'' \<and> map_of (fst obj) key = None then (fst obj, Some v)
      else (obj_set key v (fst obj), snd obj))"

text \<open>
  The names of the string-keyed members of \<^verbatim>\<open>Object.prototype\<close> other than \<^verbatim>\<open>__proto__\<close>, and
  of \<^verbatim>\<open>Array.prototype\<close> other than \<^verbatim>\<open>length\<close> and \<^verbatim>\<open>constructor\<close> (ECMAScript 2023).
\<close>

definition object_prototype_names :: "string list" where
  "object_prototype_names =
     [''constructor'', ''hasOwnProperty'', ''isPrototypeOf'', ''propertyIsEnumerable'',
      ''toLocaleString'', ''toString'', ''valueOf'',
      ''__defineGetter__'', ''__defineSetter__'', ''__lookupGetter__'', ''__lookupSetter__'']"

definition array_prototype_names :: "string list" where
  "array_prototype_names =
     [''at'', ''concat'', ''copyWithin'', ''entries'', ''every'', ''fill'', ''filter'', ''find'',
      ''findIndex'', ''findLast'', ''findLastIndex'', ''flat'', ''flatMap'', ''forEach'',
      ''includes'', ''indexOf'', ''join'', ''keys'', ''lastIndexOf'', ''map'', ''pop'', ''push'',
      ''reduce'', ''reduceRight'', ''reverse'', ''shift'', ''slice'', ''some'', ''sort'',
      ''splice'', ''toReversed'', ''toSorted'', ''toSpliced'', ''unshift'', ''values'', ''with'']"

text \<open>
  What a read \<^verbatim>\<open>order[key]\<close> of an order map yields: \<^verbatim>\<open>undefined\<close>, an array of strings, a
  string, or a value that is none of these (a function, a number, \<^verbatim>\<open>Object.prototype\<close>). The
  read takes the own property if there is one and follows the prototype chain otherwise: the
  array that was made the prototype (its elements and its \<^verbatim>\<open>length\<close>), then
  \<^verbatim>\<open>Array.prototype\<close>, then \<^verbatim>\<open>Object.prototype\<close>; without such an array, \<^verbatim>\<open>Object.prototype\<close>
  alone.
\<close>

datatype lookup = Undefined | Array "string list" | Text string | Opaque

definition order_get :: "string list object \<Rightarrow> string \<Rightarrow> lookup" where
  "order_get obj key =
     (case map_of (fst obj) key of
        Some list \<Rightarrow> Array list
      | None \<Rightarrow>
          if key = ''__proto__''
          then (case snd obj of Some proto \<Rightarrow> Array proto | None \<Rightarrow> Opaque)
          else
            (case snd obj of
               None \<Rightarrow> if key \<in> set object_prototype_names then Opaque else Undefined
             | Some proto \<Rightarrow>
                 (case array_index key (length proto) of
                    Some i \<Rightarrow> Text (proto ! i)
                  | None \<Rightarrow>
                      if key = ''length'' \<or> key \<in> set array_prototype_names
                         \<or> key \<in> set object_prototype_names
                      then Opaque else Undefined)))"

text \<open>
  \<^verbatim>\<open>type IndexData = { columns: Column[]; order: Record<string, string[]> }\<close>: the columns and
  the own properties of the order map, which is what \<^verbatim>\<open>JSON.stringify\<close> writes of an index. An
  index in memory has two more parts: the prototype that an assignment may have given to its
  order map, and whether its \<^verbatim>\<open>columns\<close> is the array \<^verbatim>\<open>DEFAULT_COLUMNS\<close> of the module itself
  (\<^verbatim>\<open>normalizeIndex\<close> returns that array, not a copy of it), so that changing the columns in
  place changes the defaults of every later call.
\<close>

record IndexData =
  columns :: "Column list"
  order :: "(string \<times> string list) list"

record index_object = IndexData +
  order_proto :: "string list option"
  columns_shared :: bool

definition index_order :: "'a index_object_scheme \<Rightarrow> string list object" where
  "index_order index = (order index, order_proto index)"

text \<open>The array \<^verbatim>\<open>DEFAULT_COLUMNS\<close> as the module creates it.\<close>

definition DEFAULT_COLUMNS :: "Column list" where
  "DEFAULT_COLUMNS =
     [\<lparr>column_id = ''todo'', column_title = ''TODO''\<rparr>,
      \<lparr>column_id = ''doing'', column_title = ''Doing''\<rparr>,
      \<lparr>column_id = ''done'', column_title = ''Done''\<rparr>]"

datatype error =
    TypeError
  | TitleEmpty
  | MissingCardId
  | CardNotFound
  | MissingMoveInformation
  | MissingReorderInformation
  | MissingColumnInformation
  | ColumnNotFound
  | MissingColumnOrderInformation
  | ColumnNameEmpty
  | MissingColumnId
  | CannotDeleteLastColumn


text \<open>
  The mapping step of \<^verbatim>\<open>normalizeIndex\<close>:
  \<^verbatim>\<open>column && typeof column.id === "string" && typeof column.title === "string"
     ? { id: column.id, title: column.title } : null\<close>
\<close>

definition parse_column :: "json \<Rightarrow> Column option" where
  "parse_column column =
     (case get_prop column ''id'' of
        Some (JStr i) \<Rightarrow>
          (case get_prop column ''title'' of
             Some (JStr t) \<Rightarrow> Some \<lparr>column_id = i, column_title = t\<rparr>
           | _ \<Rightarrow> None)
      | _ \<Rightarrow> None)"

text \<open>\<^verbatim>\<open>list.filter((id) => typeof id === "string")\<close>\<close>

definition string_entries :: "json list \<Rightarrow> string list" where
  "string_entries xs = List.map_filter (\<lambda>x. case x of JStr s \<Rightarrow> Some s | _ \<Rightarrow> None) xs"

text \<open>
  The columns of \<^verbatim>\<open>normalizeIndex\<close>, with the contents of the array \<^verbatim>\<open>DEFAULT_COLUMNS\<close> at the
  time of the call as a parameter, and whether the result is that array.
\<close>

definition normalize_columns :: "Column list \<Rightarrow> json \<Rightarrow> Column list \<times> bool" where
  "normalize_columns defaults raw =
     (case get_prop raw ''columns'' of
        Some (JArr cs) \<Rightarrow>
          (if cs \<noteq> []
           then (let parsed = List.map_filter parse_column cs
                 in if parsed \<noteq> [] then (parsed, False) else (defaults, True))
           else (defaults, True))
      | _ \<Rightarrow> (defaults, True))"

text \<open>\<^verbatim>\<open>Array.isArray(rawOrder[key]) ? rawOrder[key].filter((id) => typeof id === "string") : []\<close>\<close>

definition raw_list :: "json \<Rightarrow> string \<Rightarrow> string list" where
  "raw_list rawOrder key =
     (case get_prop rawOrder key of Some (JArr xs) \<Rightarrow> string_entries xs | _ \<Rightarrow> [])"

text \<open>\<^verbatim>\<open>raw.order ?? {}\<close>\<close>

definition raw_order :: "json \<Rightarrow> json" where
  "raw_order raw =
     (case get_prop raw ''order'' of None \<Rightarrow> JObj [] | Some JNull \<Rightarrow> JObj [] | Some v \<Rightarrow> v)"

definition normalize_order :: "json \<Rightarrow> Column list \<Rightarrow> string list object" where
  "normalize_order raw cols =
     fold (\<lambda>column. assign (column_id column) (raw_list (raw_order raw) (column_id column)))
       cols ([], None)"

text \<open>
  The statements of \<^verbatim>\<open>normalizeIndex\<close> for a \<^verbatim>\<open>raw\<close> whose properties can be read, and the
  function itself: its first statement reads \<^verbatim>\<open>raw.columns\<close>, which throws a
  \<^verbatim>\<open>TypeError\<close> when \<^verbatim>\<open>raw\<close> is \<^verbatim>\<open>null\<close>.
\<close>

definition normalize_body :: "Column list \<Rightarrow> json \<Rightarrow> index_object" where
  "normalize_body defaults raw =
     (case normalize_columns defaults raw of
        (cols, shared) \<Rightarrow>
          (let ord = normalize_order raw cols
           in \<lparr>columns = cols, order = fst ord, order_proto = snd ord, columns_shared = shared\<rparr>))"

definition normalizeIndex :: "Column list \<Rightarrow> json \<Rightarrow> error + index_object" where
  "normalizeIndex defaults raw =
     (if raw = JNull then Inl TypeError else Inr (normalize_body defaults raw))"


section \<open>Front matter\<close>

text \<open>
  \<^verbatim>\<open>trim()\<close> strips white space and line terminators from both ends: tab, line feed, vertical
  tab, form feed, carriage return, space and no-break space are the ones below 256.
\<close>

definition is_space :: "char \<Rightarrow> bool" where
  "is_space c \<longleftrightarrow> c \<in> set [CHR 0x09, CHR 0x0A, CHR 0x0B, CHR 0x0C, CHR 0x0D, CHR 0x20, CHR 0xA0]"

definition trim :: "string \<Rightarrow> string" where
  "trim s = dropWhile is_space (rev (dropWhile is_space (rev s)))"

text \<open>
  \<^verbatim>\<open>content.split(/\r?\n/)\<close>: the scan takes a carriage return together with the line feed
  after it as one separator, and a line feed alone as one.
\<close>

fun split_lines :: "string \<Rightarrow> string list" where
  "split_lines [] = [[]]"
| "split_lines [c] = (if c = LF then [[], []] else [[c]])"
| "split_lines (c # d # cs) =
     (if c = LF then [] # split_lines (d # cs)
      else if c = CR \<and> d = LF then [] # split_lines cs
      else (case split_lines (d # cs) of [] \<Rightarrow> [[c]] | l # ls \<Rightarrow> (c # l) # ls))"

text \<open>\<^verbatim>\<open>lines.join("\n")\<close>\<close>

fun join_lines :: "string list \<Rightarrow> string" where
  "join_lines [] = []"
| "join_lines [l] = l"
| "join_lines (l # m # ls) = l @ LF # join_lines (m # ls)"

text \<open>\<^verbatim>\<open>xs.indexOf(x, from)\<close> on arrays and strings; \<^const>\<open>None\<close> is the result -1.\<close>

definition indexOf :: "'a list \<Rightarrow> 'a \<Rightarrow> nat \<Rightarrow> nat option" where
  "indexOf xs x from =
     (if x \<in> set (drop from xs)
      then Some (from + length (takeWhile (\<lambda>y. y \<noteq> x) (drop from xs)))
      else None)"

text \<open>\<^verbatim>\<open>xs.slice(a, b)\<close> for \<open>0 \<le> a\<close> and \<open>0 \<le> b\<close>.\<close>

definition slice :: "'a list \<Rightarrow> nat \<Rightarrow> nat \<Rightarrow> 'a list" where
  "slice xs a b = take (b - a) (drop a xs)"

text \<open>
  The metadata \<^verbatim>\<open>Record<string, string | null>\<close> is the list of its own properties;
  the value \<^const>\<open>None\<close> is \<^verbatim>\<open>null\<close>.
\<close>

type_synonym metadata = "(string \<times> string option) list"

record front_matter =
  meta :: metadata
  body :: string

text \<open>The body of the loop over \<^verbatim>\<open>metaLines\<close> in \<^verbatim>\<open>parseFrontMatter\<close>.\<close>

definition parse_meta_line :: "string \<Rightarrow> metadata \<Rightarrow> metadata" where
  "parse_meta_line line m =
     (if trim line = [] then m
      else (case indexOf line CHR '':'' 0 of
              None \<Rightarrow> m
            | Some separatorIndex \<Rightarrow>
                (let key = trim (slice line 0 separatorIndex);
                     val = trim (drop (separatorIndex + 1) line)
                 in if key = [] then m
                    else AList.update key (if val = [] \<or> val = ''null'' then None else Some val) m)))"

definition parseFrontMatter :: "string \<Rightarrow> front_matter" where
  "parseFrontMatter content =
     (let lines = split_lines content
      in if (case lines of [] \<Rightarrow> True | l # ls \<Rightarrow> l \<noteq> ''---'')
         then \<lparr>meta = [], body = content\<rparr>
         else (case indexOf lines ''---'' 1 of
                 None \<Rightarrow> \<lparr>meta = [], body = content\<rparr>
               | Some endIndex \<Rightarrow>
                   \<lparr>meta = fold parse_meta_line (slice lines 1 endIndex) [],
                    body = join_lines (drop (endIndex + 1) lines)\<rparr>))"

definition knownKeys :: "string list" where
  "knownKeys = [''id'', ''title'', ''due'', ''createdAt'', ''updatedAt'']"

text \<open>The line \<^verbatim>\<open>`${key}: ${meta[key] ?? "null"}`\<close>.\<close>

definition meta_line :: "metadata \<Rightarrow> string \<Rightarrow> string" where
  "meta_line m key = key @ '': '' @ (case map_of m key of Some (Some v) \<Rightarrow> v | _ \<Rightarrow> ''null'')"

definition serializeFrontMatter :: "metadata \<Rightarrow> string \<Rightarrow> string" where
  "serializeFrontMatter m b =
     join_lines
       ([''---'']
        @ map (meta_line m) (filter (\<lambda>key. key \<in> set (map fst m)) knownKeys)
        @ map (meta_line m) (filter (\<lambda>key. key \<notin> set knownKeys) (map fst m))
        @ [''---'', b])"

definition firstNonEmptyLine :: "string \<Rightarrow> string option" where
  "firstNonEmptyLine text = find (\<lambda>trimmed. trimmed \<noteq> []) (map trim (split_lines text))"

section \<open>The file system\<close>

text \<open>
  The storage directory, as the operations see it through the file-system capability: the
  index file and the entries of the cards directory in listing order. A time stamp is kept as
  the ISO-8601 text \<^verbatim>\<open>toISOString()\<close> gives for it. The text of the index file is kept as the
  value \<^verbatim>\<open>JSON.parse\<close> returns for it (\<^verbatim>\<open>Unparsable\<close> when it throws), and the text
  \<^verbatim>\<open>JSON.stringify(index, null, 2)\<close> as the value it parses back to. The path of a card is the
  entry \<^verbatim>\<open>`${cardId}.md`\<close> of the cards directory; card ids with path separators are outside
  the model. Creating the two directories changes nothing that is recorded here; listing the
  cards directory can fail. The functions on the file system take any record that extends it.
\<close>

record file_entry =
  data :: string
  ctime :: string
  mtime :: string

datatype node = File file_entry | Directory

datatype index_content = Unparsable | Parsed json

record filesystem =
  index_file :: "index_content option"
  cards_dir :: "(string \<times> node) list"
  cards_listable :: bool

definition card_file :: "string \<Rightarrow> string" where
  "card_file cardId = cardId @ ''.md''"

definition readFile :: "'a filesystem_scheme \<Rightarrow> string \<Rightarrow> file_entry option" where
  "readFile fs name = (case map_of (cards_dir fs) name of Some (File e) \<Rightarrow> Some e | _ \<Rightarrow> None)"

definition writeFile ::
  "string \<Rightarrow> string \<Rightarrow> string \<Rightarrow> 'a filesystem_scheme \<Rightarrow> 'a filesystem_scheme" where
  "writeFile now name content fs =
     fs\<lparr>cards_dir :=
          AList.update name
            (File \<lparr>data = content,
                   ctime = (case readFile fs name of Some e \<Rightarrow> ctime e | None \<Rightarrow> now),
                   mtime = now\<rparr>)
            (cards_dir fs)\<rparr>"

definition readDirectory :: "'a filesystem_scheme \<Rightarrow> (string \<times> node) list option" where
  "readDirectory fs = (if cards_listable fs then Some (cards_dir fs) else None)"


text \<open>
  The value that the text \<^verbatim>\<open>JSON.stringify(index, null, 2)\<close> parses to: the columns and the
  own properties of the order map.
\<close>

definition index_json :: "'a IndexData_scheme \<Rightarrow> json" where
  "index_json index =
     JObj [(''columns'',
            JArr (map (\<lambda>c. JObj [(''id'', JStr (column_id c)), (''title'', JStr (column_title c))])
                    (columns index))),
           (''order'', JObj (map (\<lambda>(key, ids). (key, JArr (map JStr ids))) (order index)))]"

definition writeIndex :: "'a IndexData_scheme \<Rightarrow> 'b filesystem_scheme \<Rightarrow> 'b filesystem_scheme" where
  "writeIndex index fs = fs\<lparr>index_file := Some (Parsed (index_json index))\<rparr>"

text \<open>
  The state that the operations of one storage share: the file system, and the contents of
  the module's array \<^verbatim>\<open>DEFAULT_COLUMNS\<close>, which \<^verbatim>\<open>normalizeIndex\<close> hands out and which
  \<^verbatim>\<open>createColumn\<close>, \<^verbatim>\<open>updateColumn\<close> and \<^verbatim>\<open>deleteColumn\<close> change in place when the index they
  have read holds it. The results below are about every such state.
\<close>

record runtime = filesystem +
  default_columns :: "Column list"

text \<open>
  \<^verbatim>\<open>readIndex\<close>: a missing file, an unparsable text and a throwing \<^verbatim>\<open>normalizeIndex\<close> all end in
  the \<^verbatim>\<open>catch\<close> block, which writes \<^verbatim>\<open>normalizeIndex({})\<close>; its argument is an object, so that
  call is \<^const>\<open>normalize_body\<close>.
\<close>

definition readIndex_catch :: "runtime \<Rightarrow> index_object \<times> runtime" where
  "readIndex_catch st =
     (let index = normalize_body (default_columns st) (JObj []) in (index, writeIndex index st))"

definition readIndex :: "runtime \<Rightarrow> index_object \<times> runtime" where
  "readIndex st =
     (case index_file st of
        Some (Parsed parsed) \<Rightarrow>
          (case normalizeIndex (default_columns st) parsed of
             Inr index \<Rightarrow> (index, st)
           | Inl e \<Rightarrow> readIndex_catch st)
      | _ \<Rightarrow> readIndex_catch st)"

section \<open>Cards and the board state\<close>

record CardData =
  card_id :: string
  title :: string
  detail :: string
  due :: "string option"
  createdAt :: string
  updatedAt :: string

text \<open>
  \<^verbatim>\<open>type StatePayload = { columns; order; cards }\<close>: the two maps are objects that
  \<^verbatim>\<open>readState\<close> builds by assignments, each with its own properties and the prototype that
  an assignment to \<^verbatim>\<open>__proto__\<close> may have given it.
\<close>

record StatePayload =
  state_columns :: "Column list"
  state_order :: "(string \<times> string list) list"
  state_order_proto :: "string list option"
  cards :: "(string \<times> CardData) list"
  cards_proto :: "CardData option"

text \<open>A metadata value that is a string, and one that is a non-empty string.\<close>

definition meta_string :: "metadata \<Rightarrow> string \<Rightarrow> string option" where
  "meta_string m key = (case map_of m key of Some (Some v) \<Rightarrow> Some v | _ \<Rightarrow> None)"

definition meta_truthy :: "metadata \<Rightarrow> string \<Rightarrow> string option" where
  "meta_truthy m key = (case meta_string m key of Some v \<Rightarrow> if v \<noteq> [] then Some v else None
                        | None \<Rightarrow> None)"

definition loadCard :: "'a filesystem_scheme \<Rightarrow> string \<Rightarrow> CardData option" where
  "loadCard fs cardId =
     (case readFile fs (card_file cardId) of
        None \<Rightarrow> None
      | Some stat \<Rightarrow>
          (let parsed = parseFrontMatter (data stat);
               m = meta parsed;
               detail = body parsed
           in Some \<lparr>card_id = cardId,
                    title = (case meta_string m ''title'' of
                               Some t \<Rightarrow>
                                 if trim t \<noteq> [] then t
                                 else (case firstNonEmptyLine detail of
                                         Some l \<Rightarrow> l | None \<Rightarrow> ''Untitled'')
                             | None \<Rightarrow>
                                 (case firstNonEmptyLine detail of
                                    Some l \<Rightarrow> l | None \<Rightarrow> ''Untitled'')),
                    detail = detail,
                    due = meta_string m ''due'',
                    createdAt = (case meta_truthy m ''createdAt'' of
                                   Some v \<Rightarrow> v | None \<Rightarrow> ctime stat),
                    updatedAt = (case meta_truthy m ''updatedAt'' of
                                   Some v \<Rightarrow> v | None \<Rightarrow> mtime stat)\<rparr>))"

text \<open>\<^verbatim>\<open>set.add(x)\<close> on a \<^verbatim>\<open>Set\<close> kept in insertion order.\<close>

definition set_add :: "'a \<Rightarrow> 'a list \<Rightarrow> 'a list" where
  "set_add x xs = (if x \<in> set xs then xs else xs @ [x])"

definition endsWith :: "string \<Rightarrow> string \<Rightarrow> bool" where
  "endsWith name suffix \<longleftrightarrow>
     length suffix \<le> length name \<and> drop (length name - length suffix) name = suffix"

text \<open>The ids of the card files among the directory entries, in listing order.\<close>

definition card_file_ids :: "(string \<times> node) list \<Rightarrow> string list" where
  "card_file_ids entries =
     fold set_add
       (map (\<lambda>name. take (length name - 3) name)
          (filter (\<lambda>name. endsWith name ''.md'')
             (map fst (filter (\<lambda>entry. case snd entry of File e \<Rightarrow> True | Directory \<Rightarrow> False)
                         entries))))
       []"

text \<open>\<^verbatim>\<open>record[key] ?? []\<close>\<close>

definition lookup_list :: "('k \<times> 'a list) list \<Rightarrow> 'k \<Rightarrow> 'a list" where
  "lookup_list al key = (case map_of al key of Some l \<Rightarrow> l | None \<Rightarrow> [])"

text \<open>
  The value of \<^verbatim>\<open>order[key] ?? []\<close> as the receiver of \<^verbatim>\<open>filter\<close>, \<^verbatim>\<open>push\<close> or \<^verbatim>\<open>splice\<close>: a
  string, a function, a number and \<^verbatim>\<open>Object.prototype\<close> have no such method, and the call
  throws a \<^verbatim>\<open>TypeError\<close>. As the subject of \<^verbatim>\<open>for ... of\<close>, a string yields its characters.
\<close>

fun list_of :: "lookup \<Rightarrow> error + string list" where
  "list_of Undefined = Inr []"
| "list_of (Array list) = Inr list"
| "list_of (Text s) = Inl TypeError"
| "list_of Opaque = Inl TypeError"

fun iterate :: "lookup \<Rightarrow> error + string list" where
  "iterate Undefined = Inr []"
| "iterate (Array list) = Inr list"
| "iterate (Text s) = Inr (map (\<lambda>c. [c]) s)"
| "iterate Opaque = Inl TypeError"

text \<open>A loop whose body can throw.\<close>

fun fold_err :: "('a \<Rightarrow> 's \<Rightarrow> error + 's) \<Rightarrow> 'a list \<Rightarrow> 's \<Rightarrow> error + 's" where
  "fold_err f [] s = Inr s"
| "fold_err f (x # xs) s = (case f x s of Inl e \<Rightarrow> Inl e | Inr s' \<Rightarrow> fold_err f xs s')"

text \<open>
  The first loop of \<^verbatim>\<open>readState\<close>, over the columns: the state is the new order map, the
  flag \<^verbatim>\<open>orderChanged\<close> and the set \<^verbatim>\<open>orderedIds\<close>.
\<close>

definition filter_column ::
  "string list object \<Rightarrow> string list \<Rightarrow> Column
     \<Rightarrow> string list object \<times> bool \<times> string list
     \<Rightarrow> error + string list object \<times> bool \<times> string list" where
  "filter_column indexOrder cardFileIds column = (\<lambda>(ord, orderChanged, orderedIds).
     (case list_of (order_get indexOrder (column_id column)) of
        Inl e \<Rightarrow> Inl e
      | Inr current \<Rightarrow>
          (let list = filter (\<lambda>i. i \<in> set cardFileIds) current
           in Inr (assign (column_id column) list ord,
                   orderChanged \<or> (\<exists>i\<in>set current. i \<notin> set cardFileIds),
                   fold set_add list orderedIds))))"

text \<open>
  The second loop, over the card file ids:
  \<^verbatim>\<open>order[fallbackColumnId] = order[fallbackColumnId] ?? []; order[fallbackColumnId].push(id)\<close>.
\<close>

definition append_unordered ::
  "string \<Rightarrow> string list \<Rightarrow> string
     \<Rightarrow> string list object \<times> bool \<Rightarrow> error + string list object \<times> bool" where
  "append_unordered fallbackColumnId orderedIds i = (\<lambda>(ord, orderChanged).
     if i \<notin> set orderedIds
     then (case list_of (order_get ord fallbackColumnId) of
             Inl e \<Rightarrow> Inl e
           | Inr list \<Rightarrow> Inr (assign fallbackColumnId (list @ [i]) ord, True))
     else Inr (ord, orderChanged))"

text \<open>\<^verbatim>\<open>index.columns[0]?.id ?? "todo"\<close>\<close>

definition fallback_column :: "Column list \<Rightarrow> string" where
  "fallback_column cols = (case cols of [] \<Rightarrow> ''todo'' | c # cs \<Rightarrow> column_id c)"

text \<open>The repaired order map and the flag, from the index and the card file ids.\<close>

definition reconcile ::
  "Column list \<Rightarrow> string list object \<Rightarrow> string list
     \<Rightarrow> error + string list object \<times> bool" where
  "reconcile cols indexOrder cardFileIds =
     (case fold_err (filter_column indexOrder cardFileIds) cols (([], None), False, []) of
        Inl e \<Rightarrow> Inl e
      | Inr (ord, orderChanged, orderedIds) \<Rightarrow>
          fold_err (append_unordered (fallback_column cols) orderedIds) cardFileIds
            (ord, orderChanged))"

text \<open>The body of the inner loop that loads the cards, and the loop over a column.\<close>

definition load_into ::
  "'a filesystem_scheme \<Rightarrow> string \<Rightarrow> CardData object \<times> string list
     \<Rightarrow> CardData object \<times> string list" where
  "load_into fs cardId = (\<lambda>(cs, seen).
     if cardId \<in> set seen then (cs, seen)
     else ((case loadCard fs cardId of
              Some loaded \<Rightarrow> assign cardId loaded cs
            | None \<Rightarrow> cs),
           set_add cardId seen))"

definition load_column ::
  "'a filesystem_scheme \<Rightarrow> string list object \<Rightarrow> Column
     \<Rightarrow> CardData object \<times> string list \<Rightarrow> error + CardData object \<times> string list" where
  "load_column fs ord column acc =
     (case iterate (order_get ord (column_id column)) of
        Inl e \<Rightarrow> Inl e
      | Inr list \<Rightarrow> Inr (fold (load_into fs) list acc))"

definition load_cards ::
  "'a filesystem_scheme \<Rightarrow> Column list \<Rightarrow> string list object
     \<Rightarrow> error + CardData object \<times> string list" where
  "load_cards fs cols ord = fold_err (load_column fs ord) cols (([], None), [])"

text \<open>
  \<^verbatim>\<open>readState\<close> returns the payload or throws; the index is written between the second loop
  and the third.
\<close>

definition readState :: "runtime \<Rightarrow> (error + StatePayload) \<times> runtime" where
  "readState st =
     (case readIndex st of
        (index, st1) \<Rightarrow>
          (let entries = (case readDirectory st1 of Some es \<Rightarrow> es | None \<Rightarrow> []);
               cardFileIds = card_file_ids entries
           in (case reconcile (columns index) (index_order index) cardFileIds of
                 Inl e \<Rightarrow> (Inl e, st1)
               | Inr (ord, orderChanged) \<Rightarrow>
                   (let st2 = (if orderChanged
                               then writeIndex \<lparr>columns = columns index, order = fst ord\<rparr> st1
                               else st1)
                    in (case load_cards st2 (columns index) ord of
                          Inl e \<Rightarrow> (Inl e, st2)
                        | Inr (loaded, seen) \<Rightarrow>
                            (Inr \<lparr>state_columns = columns index,
                                  state_order = fst ord,
                                  state_order_proto = snd ord,
                                  cards = fst loaded,
                                  cards_proto = snd loaded\<rparr>,
                             st2))))))"

section \<open>Mutation operations\<close>

text \<open>
  An operation receives \<^verbatim>\<open>data: Record<string, unknown>\<close>, here the list of its properties, and
  the state; it returns the error it throws or nothing, with the state it leaves.
  \<^verbatim>\<open>new Date().toISOString()\<close> is the argument \<open>now\<close>.
\<close>

type_synonym input = "(string \<times> json) list"

text \<open>\<^verbatim>\<open>typeof data.key === "string" ? data.key : null\<close>\<close>

definition string_field :: "input \<Rightarrow> string \<Rightarrow> string option" where
  "string_field d key = (case map_of d key of Some (JStr v) \<Rightarrow> Some v | _ \<Rightarrow> None)"

text \<open>\<^verbatim>\<open>typeof data.key === "number" ? data.key : null\<close>\<close>

definition number_field :: "input \<Rightarrow> string \<Rightarrow> number option" where
  "number_field d key = (case map_of d key of Some (JNum n) \<Rightarrow> Some n | _ \<Rightarrow> None)"

text \<open>\<^verbatim>\<open>Array.isArray(data.key) ? data.key.filter((id) => typeof id === "string") : null\<close>\<close>

definition string_list_field :: "input \<Rightarrow> string \<Rightarrow> string list option" where
  "string_list_field d key = (case map_of d key of Some (JArr xs) \<Rightarrow> Some (string_entries xs)
                              | _ \<Rightarrow> None)"

definition updateCard ::
  "string \<Rightarrow> input \<Rightarrow> 'a filesystem_scheme \<Rightarrow> (error + unit) \<times> 'a filesystem_scheme" where
  "updateCard now d fs =
     (case string_field d ''cardId'' of
        None \<Rightarrow> (Inl MissingCardId, fs)
      | Some cardId \<Rightarrow>
          if cardId = [] then (Inl MissingCardId, fs)
          else
            (let title = (case string_field d ''title'' of Some t \<Rightarrow> t | None \<Rightarrow> []);
                 detail = (case string_field d ''detail'' of Some t \<Rightarrow> t | None \<Rightarrow> []);
                 due = string_field d ''due''
             in if trim title = [] then (Inl TitleEmpty, fs)
                else
                  (case readFile fs (card_file cardId) of
                     None \<Rightarrow> (Inl CardNotFound, fs)
                   | Some existing \<Rightarrow>
                       (let parsed = parseFrontMatter (data existing);
                            m0 = meta parsed;
                            m1 = AList.update ''id'' (Some cardId) m0;
                            m2 = AList.update ''title'' (Some (trim title)) m1;
                            m3 = AList.update ''due''
                                   (case due of
                                      Some v \<Rightarrow> if trim v \<noteq> [] then Some v else None
                                    | None \<Rightarrow> None) m2;
                            m4 = AList.update ''createdAt''
                                   (case meta_truthy m3 ''createdAt'' of
                                      Some v \<Rightarrow> Some v | None \<Rightarrow> Some now) m3;
                            m5 = AList.update ''updatedAt'' (Some now) m4;
                            content = serializeFrontMatter m5 detail
                        in (Inr (), writeFile now (card_file cardId) content fs)))))"

text \<open>
  \<^verbatim>\<open>Math.min(toIndex, toList.length)\<close>, \<^verbatim>\<open>Math.max(0, x)\<close>, and the position at which
  \<^verbatim>\<open>toList.splice(insertIndex, 0, cardId)\<close> inserts into a list of length \<open>len\<close>: not-a-number
  counts as 0, a fraction is truncated, a negative start counts from the end.
\<close>

fun Math_min :: "number \<Rightarrow> nat \<Rightarrow> number" where
  "Math_min NaN n = NaN"
| "Math_min NegInf n = NegInf"
| "Math_min PosInf n = Fin (of_nat n)"
| "Math_min (Fin q) n = Fin (min q (of_nat n))"

fun Math_max0 :: "number \<Rightarrow> number" where
  "Math_max0 NaN = NaN"
| "Math_max0 NegInf = Fin 0"
| "Math_max0 PosInf = PosInf"
| "Math_max0 (Fin q) = Fin (max 0 q)"

definition truncate :: "rat \<Rightarrow> int" where
  "truncate q = (if 0 \<le> q then \<lfloor>q\<rfloor> else \<lceil>q\<rceil>)"

fun splice_start :: "number \<Rightarrow> nat \<Rightarrow> nat" where
  "splice_start NaN len = 0"
| "splice_start NegInf len = 0"
| "splice_start PosInf len = len"
| "splice_start (Fin q) len =
     (if truncate q < 0 then nat (max (int len + truncate q) 0)
      else nat (min (truncate q) (int len)))"

definition insert_at :: "nat \<Rightarrow> 'a \<Rightarrow> 'a list \<Rightarrow> 'a list" where
  "insert_at i x xs = take i xs @ [x] @ drop i xs"

text \<open>
  The statements of \<^verbatim>\<open>moveCard\<close> between reading the index and writing it. The two reads of
  the order map go through its prototype chain, and \<^verbatim>\<open>filter\<close> and \<^verbatim>\<open>splice\<close> throw when
  what was read is no array.
\<close>

definition move_in_index ::
  "index_object \<Rightarrow> string \<Rightarrow> string \<Rightarrow> string \<Rightarrow> number \<Rightarrow> error + index_object" where
  "move_in_index index cardId fromColumnId toColumnId toIndex =
     (case list_of (order_get (index_order index) fromColumnId) of
        Inl e \<Rightarrow> Inl e
      | Inr fromList \<Rightarrow>
          (let order1 = assign fromColumnId (filter (\<lambda>i. i \<noteq> cardId) fromList) (index_order index)
           in (case list_of (order_get order1 toColumnId) of
                 Inl e \<Rightarrow> Inl e
               | Inr toList \<Rightarrow>
                   (let insertIndex = Math_max0 (Math_min toIndex (length toList));
                        toList' = insert_at (splice_start insertIndex (length toList)) cardId toList;
                        order2 = assign toColumnId toList' order1
                    in Inr (index\<lparr>order := fst order2, order_proto := snd order2\<rparr>)))))"

definition moveCard :: "input \<Rightarrow> runtime \<Rightarrow> (error + unit) \<times> runtime" where
  "moveCard d st =
     (case (string_field d ''cardId'', string_field d ''fromColumnId'',
            string_field d ''toColumnId'', number_field d ''toIndex'') of
        (Some cardId, Some fromColumnId, Some toColumnId, Some toIndex) \<Rightarrow>
          if cardId = [] \<or> fromColumnId = [] \<or> toColumnId = []
          then (Inl MissingMoveInformation, st)
          else
            (case readIndex st of
               (index, st1) \<Rightarrow>
                 (case move_in_index index cardId fromColumnId toColumnId toIndex of
                    Inl e \<Rightarrow> (Inl e, st1)
                  | Inr index' \<Rightarrow> (Inr (), writeIndex index' st1)))
      | _ \<Rightarrow> (Inl MissingMoveInformation, st))"

definition reorderCards :: "input \<Rightarrow> runtime \<Rightarrow> (error + unit) \<times> runtime" where
  "reorderCards d st =
     (case (string_field d ''columnId'', string_list_field d ''orderedIds'') of
        (Some columnId, Some orderedIds) \<Rightarrow>
          if columnId = [] then (Inl MissingReorderInformation, st)
          else
            (case readIndex st of
               (index, st1) \<Rightarrow>
                 (let order1 = assign columnId orderedIds (index_order index)
                  in (Inr (),
                      writeIndex (index\<lparr>order := fst order1, order_proto := snd order1\<rparr>) st1)))
      | _ \<Rightarrow> (Inl MissingReorderInformation, st))"

text \<open>
  \<^verbatim>\<open>reorderColumns\<close>: the \<^verbatim>\<open>Map\<close> from ids to columns is kept in insertion order;
  \<^verbatim>\<open>map.set\<close> is \<^const>\<open>AList.update\<close> and \<^verbatim>\<open>map.delete\<close> is \<^const>\<open>AList.delete\<close>.
\<close>

definition column_map :: "Column list \<Rightarrow> (string \<times> Column) list" where
  "column_map cols = fold (\<lambda>column m. AList.update (column_id column) column m) cols []"

definition take_column ::
  "string \<Rightarrow> Column list \<times> (string \<times> Column) list \<Rightarrow> Column list \<times> (string \<times> Column) list" where
  "take_column i = (\<lambda>(nextColumns, columnMap).
     case map_of columnMap i of
       Some column \<Rightarrow> (nextColumns @ [column], AList.delete i columnMap)
     | None \<Rightarrow> (nextColumns, columnMap))"

definition reorder :: "Column list \<Rightarrow> string list \<Rightarrow> Column list" where
  "reorder cols orderedIds =
     (case fold take_column orderedIds ([], column_map cols) of
        (nextColumns, columnMap) \<Rightarrow> nextColumns @ map snd columnMap)"

definition reorderColumns :: "input \<Rightarrow> runtime \<Rightarrow> (error + unit) \<times> runtime" where
  "reorderColumns d fs =
     (case string_list_field d ''orderedIds'' of
        None \<Rightarrow> (Inl MissingColumnOrderInformation, fs)
      | Some orderedIds \<Rightarrow>
          (case readIndex fs of
             (index, fs1) \<Rightarrow>
               (Inr (), writeIndex (index\<lparr>columns := reorder (columns index) orderedIds\<rparr>) fs1)))"




section \<open>Objects built by assignments\<close>

lemma map_of_insert_index: "map_of (insert_index key v al) = (map_of al)(key \<mapsto> v)"
proof (induction al)
  case Nil
  then show ?case by simp
next
  case (Cons p al)
  obtain k w where p: "p = (k, w)" by (cases p)
  show ?case
  proof (cases "is_index_key k \<and> read_nat k < read_nat key")
    case True
    then have "k \<noteq> key" by auto
    with True Cons show ?thesis by (auto simp: p fun_upd_twist)
  next
    case False
    then show ?thesis by (auto simp: p)
  qed
qed



lemma map_of_obj_set: "map_of (obj_set key v al) = (map_of al)(key \<mapsto> v)"
  by (simp add: obj_set_def map_of_insert_index update_conv')



lemma lookup_list_obj_set:
  "lookup_list (obj_set k v al) k' = (if k' = k then v else lookup_list al k')"
  by (simp add: lookup_list_def map_of_obj_set)

lemma assign_plain: "key \<noteq> ''__proto__'' \<Longrightarrow> assign key v obj = (obj_set key v (fst obj), snd obj)"
  by (simp add: assign_def)

text \<open>A key with a character that is no digit is no array index.\<close>

lemma digit_char_digit: "d < 10 \<Longrightarrow> digit_char d \<in> set ''0123456789''"
proof -
  assume "d < 10"
  then consider "d = 0" | "d = 1" | "d = 2" | "d = 3" | "d = 4" | "d = 5" | "d = 6" | "d = 7"
    | "d = 8" | "d = 9"
    by atomize_elim presburger
  then show ?thesis
    by cases (simp_all add: digit_char_def)
qed

lemma show_nat_digits: "set (show_nat n) \<subseteq> set ''0123456789''"
proof (induction n rule: show_nat.induct)
  case (1 n)
  show ?case
  proof (cases "n < 10")
    case True
    then show ?thesis
      using digit_char_digit [of n] by (subst show_nat.simps) simp
  next
    case False
    then have "set (show_nat (n div 10)) \<subseteq> set ''0123456789''"
      using "1" by simp
    moreover have "digit_char (n mod 10) \<in> set ''0123456789''"
      by (rule digit_char_digit) simp
    ultimately show ?thesis
      using False by (subst show_nat.simps) simp
  qed
qed

lemma not_index_key: "c \<in> set key \<Longrightarrow> c \<notin> set ''0123456789'' \<Longrightarrow> \<not> is_index_key key"
  using show_nat_digits [of "read_nat key"] by (auto simp: is_index_key_def)

lemma obj_set_letter:
  "c \<in> set key \<Longrightarrow> c \<notin> set ''0123456789'' \<Longrightarrow> obj_set key v al = AList.update key v al"
  using not_index_key [of c key] by (simp add: obj_set_def)

lemma assign_letter:
  "key \<noteq> ''__proto__'' \<Longrightarrow> c \<in> set key \<Longrightarrow> c \<notin> set ''0123456789'' \<Longrightarrow>
     assign key v obj = (AList.update key v (fst obj), snd obj)"
  by (simp add: assign_plain obj_set_letter)



lemma obj_set_word:
  "key \<noteq> [] \<Longrightarrow> hd key \<notin> set ''0123456789'' \<Longrightarrow> obj_set key v al = AList.update key v al"
  using obj_set_letter [of "hd key" key] by simp

lemma assign_word:
  "key \<noteq> ''__proto__'' \<Longrightarrow> key \<noteq> [] \<Longrightarrow> hd key \<notin> set ''0123456789'' \<Longrightarrow>
     assign key v obj = (AList.update key v (fst obj), snd obj)"
  by (simp add: assign_plain obj_set_word)

lemma assign_proto:
  "map_of (fst obj) ''__proto__'' = None \<Longrightarrow> assign ''__proto__'' v obj = (fst obj, Some v)"
  by (simp add: assign_def)

text \<open>An object that assignments have built has no own property \<^verbatim>\<open>__proto__\<close>.\<close>

lemma assign_no_own_proto:
  "map_of (fst obj) ''__proto__'' = None \<Longrightarrow> map_of (fst (assign key v obj)) ''__proto__'' = None"
  by (simp add: assign_def map_of_obj_set)

lemma fold_assign_no_own_proto:
  "map_of (fst obj) ''__proto__'' = None \<Longrightarrow>
     map_of (fst (fold (\<lambda>c. assign (f c) (g c)) cs obj)) ''__proto__'' = None"
  by (induction cs arbitrary: obj) (simp_all add: assign_no_own_proto)






lemma lookup_fold_assign:
  "key \<noteq> ''__proto__'' \<Longrightarrow>
     lookup_list (fst (fold (\<lambda>c. assign (f c) (g (f c))) cs obj)) key
       = (if key \<in> f ` set cs then g key else lookup_list (fst obj) key)"
proof (induction cs arbitrary: obj)
  case Nil
  then show ?case by simp
next
  case (Cons c cs)
  from Cons.IH [OF Cons.prems, of "assign (f c) (g (f c)) obj"] Cons.prems
  show ?case by (auto simp: assign_def lookup_list_obj_set)
qed

lemma map_of_fold_assign:
  "key \<noteq> ''__proto__'' \<Longrightarrow>
     map_of (fst (fold (\<lambda>c. assign (f c) (g (f c))) cs obj)) key
       = (if key \<in> f ` set cs then Some (g key) else map_of (fst obj) key)"
proof (induction cs arbitrary: obj)
  case Nil
  then show ?case by simp
next
  case (Cons c cs)
  from Cons.IH [OF Cons.prems, of "assign (f c) (g (f c)) obj"] Cons.prems
  show ?case by (auto simp: assign_def map_of_obj_set)
qed

lemma fold_assign_cong:
  "(\<And>c. c \<in> set cs \<Longrightarrow> g c = h c) \<Longrightarrow>
     fold (\<lambda>c. assign (f c) (g c)) cs obj = fold (\<lambda>c. assign (f c) (h c)) cs obj"
  by (induction cs arbitrary: obj) simp_all

section \<open>Normalizing an index\<close>

lemma own_proto_normalize_order: "map_of (fst (normalize_order raw cols)) ''__proto__'' = None"
  unfolding normalize_order_def by (rule fold_assign_no_own_proto) simp




lemma map_of_normalize_order:
  "key \<noteq> ''__proto__'' \<Longrightarrow>
     map_of (fst (normalize_order raw cols)) key
       = (if key \<in> column_id ` set cols then Some (raw_list (raw_order raw) key) else None)"
  unfolding normalize_order_def by (subst map_of_fold_assign) simp_all

lemma lookup_normalize_order:
  "key \<noteq> ''__proto__'' \<Longrightarrow>
     lookup_list (fst (normalize_order raw cols)) key
       = (if key \<in> column_id ` set cols then raw_list (raw_order raw) key else [])"
  by (simp add: lookup_list_def map_of_normalize_order)




lemma normalize_columns_empty: "fst (normalize_columns defaults raw) = [] \<Longrightarrow> defaults = []"
  by (auto simp: normalize_columns_def Let_def split: option.splits json.splits if_splits)



lemma normalize_body_empty:
  "normalize_body DEFAULT_COLUMNS (JObj []) =
     \<lparr>columns = DEFAULT_COLUMNS, order = [(''todo'', []), (''doing'', []), (''done'', [])],
      order_proto = None, columns_shared = True\<rparr>"
  by (simp add: normalize_body_def normalize_columns_def normalize_order_def raw_order_def raw_list_def
      DEFAULT_COLUMNS_def assign_word)

lemma normalize_body_defaults:
  "normalize_body
     [\<lparr>column_id = ''todo'', column_title = ''TODO''\<rparr>,
      \<lparr>column_id = ''doing'', column_title = ''Doing''\<rparr>,
      \<lparr>column_id = ''done'', column_title = ''Done''\<rparr>] (JObj []) =
     \<lparr>columns = [\<lparr>column_id = ''todo'', column_title = ''TODO''\<rparr>,
                 \<lparr>column_id = ''doing'', column_title = ''Doing''\<rparr>,
                 \<lparr>column_id = ''done'', column_title = ''Done''\<rparr>],
      order = [(''todo'', []), (''doing'', []), (''done'', [])],
      order_proto = None, columns_shared = True\<rparr>"
  using normalize_body_empty by (simp add: DEFAULT_COLUMNS_def)

section \<open>Reading the index\<close>

lemma readIndex_cases:
  "readIndex st = (index, st') \<Longrightarrow>
     (st' = st \<and> (\<exists>raw. index_file st = Some (Parsed raw) \<and> raw \<noteq> JNull
                      \<and> index = normalize_body (default_columns st) raw))
   \<or> (st' = writeIndex (normalize_body (default_columns st) (JObj [])) st
        \<and> index = normalize_body (default_columns st) (JObj []))"
  by (auto simp: readIndex_def readIndex_catch_def normalizeIndex_def Let_def
      split: option.splits index_content.splits sum.splits if_splits)


lemma readIndex_normal:
  assumes "readIndex st = (index, st')"
  shows "\<exists>raw. index = normalize_body (default_columns st) raw"
    and "default_columns st' = default_columns st"
    and "cards_dir st' = cards_dir st"
    and "cards_listable st' = cards_listable st"
  using readIndex_cases [OF assms] by (auto simp: writeIndex_def)





section \<open>Reordering columns\<close>

lemma set_fold_set_add: "set (fold set_add xs acc) = set acc \<union> set xs"
  by (induction xs arbitrary: acc) (auto simp: set_add_def)

lemma distinct_fold_set_add: "distinct acc \<Longrightarrow> distinct (fold set_add xs acc)"
  by (induction xs arbitrary: acc) (auto simp: set_add_def)

lemma fold_set_add_snoc: "fold set_add (xs @ [x]) acc = set_add x (fold set_add xs acc)"
  by simp

lemma column_map_distinct:
  "distinct (map column_id cols) \<Longrightarrow> column_map cols = map (\<lambda>c. (column_id c, c)) cols"
proof -
  have "distinct (map column_id cols) \<Longrightarrow> column_id ` set cols \<inter> fst ` set acc = {} \<Longrightarrow>
        fold (\<lambda>column m. AList.update (column_id column) column m) cols acc
          = acc @ map (\<lambda>c. (column_id c, c)) cols" for acc
  proof (induction cols arbitrary: acc)
    case Nil
    then show ?case by simp
  next
    case (Cons c cs)
    have "AList.update (column_id c) c acc = acc @ [(column_id c, c)]"
      using Cons.prems(2) by (induction acc) auto
    moreover have "column_id ` set cs \<inter> fst ` set (acc @ [(column_id c, c)]) = {}"
      using Cons.prems by auto
    ultimately show ?case
      using Cons.IH [of "acc @ [(column_id c, c)]"] Cons.prems(1) by simp
  qed
  from this [of "[]"] show "distinct (map column_id cols) \<Longrightarrow> ?thesis"
    by (simp add: column_map_def)
qed

text \<open>
  The columns that \<^verbatim>\<open>orderedIds\<close> names, in the order of their first mention there.
\<close>

definition matched :: "Column list \<Rightarrow> string list \<Rightarrow> Column list" where
  "matched cols ids = concat (map (\<lambda>i. filter (\<lambda>c. column_id c = i) cols) (fold set_add ids []))"

lemma map_of_columns:
  "distinct (map column_id cols) \<Longrightarrow>
   map_of (map (\<lambda>c. (column_id c, c)) (filter P cols)) i
     = (case filter (\<lambda>c. column_id c = i) (filter P cols) of [] \<Rightarrow> None | c # cs \<Rightarrow> Some c)"
  by (induction cols) (auto split: list.splits simp: filter_empty_conv image_iff)

lemma filter_id_distinct:
  "distinct (map column_id cols) \<Longrightarrow> filter (\<lambda>c. column_id c = i) cols = c # cs \<Longrightarrow> cs = []"
proof (induction cols arbitrary: c cs)
  case Nil then show ?case by simp
next
  case (Cons a cols)
  show ?case
  proof (cases "column_id a = i")
    case True
    have "column_id a \<notin> column_id ` set cols"
      using Cons.prems(1) by simp
    then have "\<forall>x\<in>set cols. column_id x \<noteq> i"
      using True by blast
    then have "filter (\<lambda>c. column_id c = i) cols = []"
      by (simp add: filter_empty_conv)
    with Cons.prems True show ?thesis by simp
  next
    case False
    with Cons show ?thesis by auto
  qed
qed

lemma delete_columns:
  "AList.delete i (map (\<lambda>c. (column_id c, c)) (filter P cols))
     = map (\<lambda>c. (column_id c, c)) (filter (\<lambda>c. P c \<and> column_id c \<noteq> i) cols)"
  by (induction cols) (auto simp: )

lemma fold_take_column:
  assumes "distinct (map column_id cols)"
  shows "fold take_column ids
           (matched cols P, map (\<lambda>c. (column_id c, c)) (filter (\<lambda>c. column_id c \<notin> set P) cols))
         = (matched cols (P @ ids),
            map (\<lambda>c. (column_id c, c)) (filter (\<lambda>c. column_id c \<notin> set (P @ ids)) cols))"
proof (induction ids arbitrary: P)
  case Nil
  then show ?case by simp
next
  case (Cons i ids)
  let ?M = "map (\<lambda>c. (column_id c, c)) (filter (\<lambda>c. column_id c \<notin> set P) cols)"
  have step: "take_column i (matched cols P, ?M)
          = (matched cols (P @ [i]),
             map (\<lambda>c. (column_id c, c)) (filter (\<lambda>c. column_id c \<notin> set (P @ [i])) cols))"
  proof (cases "i \<in> set P")
    case True
    then have "map_of ?M i = None"
      by (auto simp: map_of_eq_None_iff image_iff)
    moreover have "matched cols (P @ [i]) = matched cols P"
      using True by (simp add: matched_def set_add_def set_fold_set_add)
    moreover have "filter (\<lambda>c. column_id c \<notin> set (P @ [i])) cols = filter (\<lambda>c. column_id c \<notin> set P) cols"
      using True by (intro filter_cong) auto
    ultimately show ?thesis
      by (simp add: take_column_def)
  next
    case False
    have eq: "filter (\<lambda>c. column_id c = i) (filter (\<lambda>c. column_id c \<notin> set P) cols)
          = filter (\<lambda>c. column_id c = i) cols"
      using False by (auto intro: filter_cong)
    have m: "matched cols (P @ [i]) = matched cols P @ filter (\<lambda>c. column_id c = i) cols"
      using False by (simp add: matched_def set_add_def set_fold_set_add)
    have d: "AList.delete i ?M
       = map (\<lambda>c. (column_id c, c)) (filter (\<lambda>c. column_id c \<notin> set (P @ [i])) cols)"
      by (simp add: delete_columns) (metis)
    show ?thesis
    proof (cases "filter (\<lambda>c. column_id c = i) cols")
      case Nil
      then have "map_of ?M i = None"
        using assms eq by (simp add: map_of_columns)
      moreover have "AList.delete i ?M = ?M"
        using calculation by (simp add: delete_notin_dom map_of_eq_None_iff AList.delete_id)
      ultimately show ?thesis
        using Nil m d by (simp add: take_column_def)
    next
      case (Cons c cs)
      then have "cs = []"
        using assms filter_id_distinct by blast
      with Cons have "map_of ?M i = Some c"
        using assms eq by (simp add: map_of_columns)
      then show ?thesis
        using Cons \<open>cs = []\<close> m d by (simp add: take_column_def)
    qed
  qed
  show ?case
    using Cons.IH [of "P @ [i]"] step by simp
qed

lemma reorder_closed_form:
  assumes "distinct (map column_id cols)"
  shows "reorder cols ids = matched cols ids @ filter (\<lambda>c. column_id c \<notin> set ids) cols"
proof -
  have "matched cols [] = []"
    by (simp add: matched_def)
  then have "fold take_column ids ([], column_map cols)
      = (matched cols ids, map (\<lambda>c. (column_id c, c)) (filter (\<lambda>c. column_id c \<notin> set ids) cols))"
    using fold_take_column [OF assms, where P = "[]" and ids = ids]
    by (simp add: column_map_distinct [OF assms])
  then show ?thesis
    by (simp add: reorder_def comp_def)
qed

lemma mset_matched_aux:
  "distinct D \<Longrightarrow> mset (concat (map (\<lambda>i. filter (\<lambda>c. f c = i) xs) D))
      = mset (filter (\<lambda>c. f c \<in> set D) xs)"
proof (induction D)
  case Nil
  then show ?case by simp
next
  case (Cons i D)
  have "filter_mset (\<lambda>c. f c \<in> set (i # D)) (mset xs)
        = filter_mset (\<lambda>c. f c = i) (mset xs) + filter_mset (\<lambda>c. f c \<in> set D) (mset xs)"
    using Cons.prems by (induction xs) auto
  with Cons show ?case by simp
qed

lemma mset_reorder:
  assumes "distinct (map column_id cols)"
  shows "mset (reorder cols ids) = mset cols"
proof -
  have "mset (matched cols ids) = mset (filter (\<lambda>c. column_id c \<in> set ids) cols)"
    unfolding matched_def
    by (subst mset_matched_aux) (simp_all add: distinct_fold_set_add set_fold_set_add)
  then show ?thesis
    by (simp add: reorder_closed_form [OF assms])
qed


text \<open>An index with two columns of the same id, and a storage directory with no index yet.\<close>

definition duplicate_id_fs :: runtime where
  "duplicate_id_fs =
     \<lparr>index_file = Some (Parsed (JObj [(''columns'',
          JArr [JObj [(''id'', JStr ''a''), (''title'', JStr ''A1'')],
                JObj [(''id'', JStr ''a''), (''title'', JStr ''A2'')]])])),
      cards_dir = [], cards_listable = True, default_columns = DEFAULT_COLUMNS\<rparr>"

definition empty_fs :: runtime where
  "empty_fs =
     \<lparr>index_file = None, cards_dir = [], cards_listable = True,
      default_columns = DEFAULT_COLUMNS\<rparr>"

lemma readIndex_empty_fs:
  "readIndex empty_fs
     = (normalize_body DEFAULT_COLUMNS (JObj []),
        writeIndex (normalize_body DEFAULT_COLUMNS (JObj [])) empty_fs)"
  by (simp add: readIndex_def empty_fs_def readIndex_catch_def Let_def)

section \<open>Deleting a column\<close>





section \<open>Reading front matter back\<close>

text \<open>
  The line a split leaves when a line feed follows: a carriage return before it is taken
  with it. And whether a string has a carriage return directly followed by a line feed.
\<close>

definition strip_cr :: "string \<Rightarrow> string" where
  "strip_cr l = (if l \<noteq> [] \<and> last l = CR then butlast l else l)"

fun has_crlf :: "string \<Rightarrow> bool" where
  "has_crlf [] = False"
| "has_crlf [c] = False"
| "has_crlf (c # d # cs) = ((c = CR \<and> d = LF) \<or> has_crlf (d # cs))"

text \<open>The text a metadata value is written as, and what reading it back yields.\<close>

definition value_text :: "metadata \<Rightarrow> string \<Rightarrow> string" where
  "value_text m key = (case map_of m key of Some (Some v) \<Rightarrow> v | _ \<Rightarrow> ''null'')"

definition norm_text :: "string \<Rightarrow> string option" where
  "norm_text v = (if trim v = [] \<or> trim v = ''null'' then None else Some (trim v))"

text \<open>The keys in the order \<^const>\<open>serializeFrontMatter\<close> writes them.\<close>

definition serial_keys :: "metadata \<Rightarrow> string list" where
  "serial_keys m =
     filter (\<lambda>key. key \<in> set (map fst m)) knownKeys
     @ filter (\<lambda>key. key \<notin> set knownKeys) (map fst m)"

text \<open>
  A key that is read back as it was written: not empty, no white space at its ends, no colon
  and no line feed.
\<close>

definition clean_key :: "string \<Rightarrow> bool" where
  "clean_key k \<longleftrightarrow> k \<noteq> [] \<and> trim k = k \<and> CHR '':'' \<notin> set k \<and> LF \<notin> set k"

subsection \<open>trim\<close>

lemma is_space_simps:
  "is_space CR" "is_space LF" "is_space CHR '' ''" "\<not> is_space CHR '':''" "\<not> is_space CHR ''-''"
  by (simp_all add: is_space_def CR_def LF_def)

lemma set_trim: "set (trim s) \<subseteq> set s"
  by (auto simp: trim_def dest!: set_dropWhileD)

lemma dropWhile_all: "(\<forall>x\<in>set (dropWhile P xs). P x) \<longleftrightarrow> (\<forall>x\<in>set xs. P x)"
  by (induction xs) auto

lemma trim_empty_iff: "trim s = [] \<longleftrightarrow> (\<forall>c\<in>set s. is_space c)"
  by (simp add: trim_def dropWhile_eq_Nil_conv dropWhile_all)

lemma last_dropWhile: "dropWhile P xs \<noteq> [] \<Longrightarrow> last (dropWhile P xs) = last xs"
  by (induction xs) (auto split: if_splits)

lemma trim_fixed:
  assumes "t \<noteq> []" and "\<not> is_space (hd t)" and "\<not> is_space (last t)"
  shows "trim t = t"
proof -
  have "rev t \<noteq> []" and "hd (rev t) = last t"
    using assms(1) by (simp_all add: hd_rev)
  then have "dropWhile is_space (rev t) = rev t"
    using assms(3) by (simp add: dropWhile_eq_self_iff)
  moreover have "dropWhile is_space t = t"
    using assms(1,2) by (simp add: dropWhile_eq_self_iff)
  ultimately show ?thesis
    by (simp add: trim_def)
qed

lemma trim_ends:
  assumes "trim s \<noteq> []"
  shows "\<not> is_space (hd (trim s))" and "\<not> is_space (last (trim s))"
proof -
  let ?e = "rev (dropWhile is_space (rev s))"
  have t: "trim s = dropWhile is_space ?e"
    by (simp add: trim_def)
  show "\<not> is_space (hd (trim s))"
    using assms unfolding t by (rule hd_dropWhile)
  have ne: "dropWhile is_space (rev s) \<noteq> []"
  proof
    assume a: "dropWhile is_space (rev s) = []"
    have "trim s = []"
      unfolding trim_def a by simp
    with assms show False by simp
  qed
  have "last (trim s) = last ?e"
    using assms unfolding t by (rule last_dropWhile)
  also have "\<dots> = hd (dropWhile is_space (rev s))"
    using ne by (simp add: last_rev)
  finally show "\<not> is_space (last (trim s))"
    using hd_dropWhile [OF ne] by simp
qed

lemma trim_Nil: "trim [] = []"
  by (simp add: trim_def)

lemma trim_idem: "trim (trim s) = trim s"
proof (cases "trim s = []")
  case True
  then show ?thesis by (simp only: trim_Nil)
next
  case False
  then show ?thesis
    using trim_ends [OF False] by (intro trim_fixed)
qed

lemma trim_snoc_space: "is_space c \<Longrightarrow> trim (s @ [c]) = trim s"
  by (simp add: trim_def)

lemma trim_cons_space:
  assumes "is_space c"
  shows "trim (c # s) = trim s"
proof (cases "\<forall>x\<in>set s. is_space x")
  case True
  then have "trim s = []" and "trim (c # s) = []"
    using assms by (simp_all add: trim_empty_iff)
  then show ?thesis by simp
next
  case False
  then have "dropWhile is_space (rev s @ [c]) = dropWhile is_space (rev s) @ [c]"
    by (simp add: dropWhile_append)
  then show ?thesis
    using assms by (simp add: trim_def)
qed

lemma trim_strip_cr: "trim (strip_cr s) = trim s"
proof (cases "s \<noteq> [] \<and> last s = CR")
  case True
  then have "s = butlast s @ [CR]"
    by (metis append_butlast_last_id)
  then have "trim s = trim (butlast s)"
    using trim_snoc_space [of CR "butlast s"] by (simp add: is_space_simps)
  with True show ?thesis
    by (simp add: strip_cr_def)
next
  case False
  then show ?thesis
    by (auto simp: strip_cr_def)
qed

subsection \<open>Splitting and joining lines\<close>

lemma split_lines_nonempty: "split_lines s \<noteq> []"
  by (induction s rule: split_lines.induct) (auto split: list.splits)

lemma split_lines_line:
  "LF \<notin> set l \<Longrightarrow> split_lines (l @ LF # rest) = strip_cr l # split_lines rest"
proof (induction l)
  case Nil
  show ?case by (cases rest) (simp_all add: strip_cr_def)
next
  case (Cons c l)
  then have c: "c \<noteq> LF" and l: "LF \<notin> set l" by auto
  obtain d cs where dc: "l @ LF # rest = d # cs"
    by (cases "l @ LF # rest") auto
  have ih: "split_lines (d # cs) = strip_cr l # split_lines rest"
    using Cons.IH [OF l] dc by simp
  show ?case
  proof (cases "c = CR \<and> d = LF")
    case True
    then have "l = []"
      using dc l by (cases l) auto
    with True dc have "rest = cs" by simp
    with True \<open>l = []\<close> show ?thesis
      by (simp add: strip_cr_def CR_def LF_def)
  next
    case False
    then have "split_lines (c # d # cs)
        = (case split_lines (d # cs) of [] \<Rightarrow> [[c]] | x # xs \<Rightarrow> (c # x) # xs)"
      using c by (cases "c = CR") auto
    then have "split_lines (c # d # cs) = (c # strip_cr l) # split_lines rest"
      by (simp only: ih list.case)
    moreover have "c # strip_cr l = strip_cr (c # l)"
      using False dc by (cases l) (auto simp: strip_cr_def)
    ultimately show ?thesis
      using dc by simp
  qed
qed

lemma join_lines_Cons: "ls \<noteq> [] \<Longrightarrow> join_lines (l # ls) = l @ LF # join_lines ls"
  by (cases ls) simp_all

lemma join_lines_cons_char: "join_lines ((c # l) # ls) = c # join_lines (l # ls)"
  by (cases ls) simp_all

lemma join_split_lines: "\<not> has_crlf s \<Longrightarrow> join_lines (split_lines s) = s"
proof (induction s rule: split_lines.induct)
  case 1
  then show ?case by simp
next
  case (2 c)
  then show ?case by simp
next
  case (3 c d cs)
  from "3.prems" have no: "\<not> (c = CR \<and> d = LF)" and rest: "\<not> has_crlf (d # cs)"
    by auto
  obtain x xs where x: "split_lines (d # cs) = x # xs"
    using split_lines_nonempty [of "d # cs"] by (cases "split_lines (d # cs)") auto
  show ?case
  proof (cases "c = LF")
    case True
    with "3.IH"(1) rest have "join_lines (split_lines (d # cs)) = d # cs"
      by simp
    with True x show ?thesis
      by (simp add: join_lines_Cons)
  next
    case False
    with "3.IH"(3) no rest have "join_lines (split_lines (d # cs)) = d # cs"
      by simp
    with False no x show ?thesis
      by (auto simp: join_lines_cons_char)
  qed
qed

lemma split_lines_no_LF: "l \<in> set (split_lines s) \<Longrightarrow> LF \<notin> set l"
proof (induction s arbitrary: l rule: split_lines.induct)
  case 1
  then show ?case by simp
next
  case (2 c)
  then show ?case by (auto split: if_splits)
next
  case (3 c d cs)
  obtain x xs where x: "split_lines (d # cs) = x # xs"
    using split_lines_nonempty [of "d # cs"] by (cases "split_lines (d # cs)") auto
  show ?case
  proof (cases "c = LF")
    case True
    with "3.prems" "3.IH"(1) show ?thesis by auto
  next
    case False
    show ?thesis
    proof (cases "c = CR \<and> d = LF")
      case True
      with False "3.prems" "3.IH"(2) show ?thesis by auto
    next
      case no: False
      have "LF \<notin> set x" and "\<And>y. y \<in> set xs \<Longrightarrow> LF \<notin> set y"
        using "3.IH"(3) [OF False no] x by auto
      with False no x "3.prems" show ?thesis by auto
    qed
  qed
qed

subsection \<open>Reading back what was written\<close>

lemma strip_cr_meta_line:
  "strip_cr (k @ CHR '':'' # CHR '' '' # v) = k @ CHR '':'' # CHR '' '' # strip_cr v"
  by (cases "v = []") (auto simp: strip_cr_def butlast_append CR_def)

lemma takeWhile_until: "x \<notin> set k \<Longrightarrow> takeWhile (\<lambda>y. y \<noteq> x) (k @ x # rest) = k"
  by (induction k) auto

lemma indexOf_first: "x \<notin> set k \<Longrightarrow> indexOf (k @ x # rest) x 0 = Some (length k)"
  by (simp add: indexOf_def takeWhile_until)

lemma parse_meta_line_written:
  assumes "clean_key k"
  shows "parse_meta_line (strip_cr (k @ '': '' @ v)) m = AList.update k (norm_text v) m"
proof -
  let ?line = "k @ CHR '':'' # CHR '' '' # strip_cr v"
  have line: "strip_cr (k @ '': '' @ v) = ?line"
    using strip_cr_meta_line [of k v] by simp
  from assms have k: "k \<noteq> []" "trim k = k" "CHR '':'' \<notin> set k"
    by (simp_all add: clean_key_def)
  then have "\<not> (\<forall>c\<in>set k. is_space c)"
    using trim_empty_iff [of k] by simp
  then have "trim ?line \<noteq> []"
    by (auto simp: trim_empty_iff)
  moreover have "indexOf ?line CHR '':'' 0 = Some (length k)"
    using k(3) by (rule indexOf_first)
  moreover have "trim (slice ?line 0 (length k)) = k"
    using k(2) by (simp add: slice_def)
  moreover have "trim (drop (length k + 1) ?line) = trim v"
    by (simp add: trim_cons_space is_space_simps trim_strip_cr)
  ultimately show ?thesis
    using k(1) unfolding line parse_meta_line_def
    by (simp add: norm_text_def Let_def)
qed

lemma fold_parse_written:
  assumes "\<forall>k\<in>set keys. clean_key k"
  shows "fold parse_meta_line (map (\<lambda>k. strip_cr (meta_line m k)) keys) acc
           = fold (\<lambda>k. AList.update k (norm_text (value_text m k))) keys acc"
  using assms
proof (induction keys arbitrary: acc)
  case Nil
  then show ?case by simp
next
  case (Cons k keys)
  have "meta_line m k = k @ '': '' @ value_text m k"
    by (simp add: meta_line_def value_text_def)
  then have "parse_meta_line (strip_cr (meta_line m k)) acc
               = AList.update k (norm_text (value_text m k)) acc"
    using Cons.prems parse_meta_line_written [of k "value_text m k" acc] by simp
  with Cons show ?case by simp
qed

lemma map_of_fold_update:
  "map_of (fold (\<lambda>k. AList.update k (g k)) keys acc) x
     = (if x \<in> set keys then Some (g x) else map_of acc x)"
  by (induction keys arbitrary: acc) (auto simp: update_conv')

lemma set_serial_keys: "set (serial_keys m) = fst ` set m"
  by (auto simp: serial_keys_def)

lemma split_join_block:
  assumes "\<forall>l\<in>set L. LF \<notin> set l"
  shows "split_lines (join_lines (L @ [''---'', b])) = map strip_cr L @ ''---'' # split_lines b"
  using assms
proof (induction L)
  case Nil
  have "split_lines (''---'' @ LF # b) = strip_cr ''---'' # split_lines b"
    by (rule split_lines_line) (simp add: LF_def)
  then show ?case
    by (simp add: strip_cr_def CR_def)
next
  case (Cons l L)
  have "join_lines ((l # L) @ [''---'', b]) = l @ LF # join_lines (L @ [''---'', b])"
    using join_lines_Cons [of "L @ [''---'', b]" l] by simp
  with Cons show ?case
    by (simp add: split_lines_line)
qed

lemma split_lines_serialized:
  assumes "\<forall>k\<in>set (serial_keys m). LF \<notin> set (meta_line m k)"
  shows "split_lines (serializeFrontMatter m b)
           = ''---'' # map (\<lambda>k. strip_cr (meta_line m k)) (serial_keys m) @ ''---'' # split_lines b"
proof -
  let ?L = "map (meta_line m) (serial_keys m)"
  have "serializeFrontMatter m b = join_lines (''---'' # ?L @ [''---'', b])"
    by (simp add: serializeFrontMatter_def serial_keys_def)
  also have "\<dots> = ''---'' @ LF # join_lines (?L @ [''---'', b])"
    using join_lines_Cons [of "?L @ [''---'', b]" "''---''"] by simp
  finally have "split_lines (serializeFrontMatter m b)
      = strip_cr ''---'' # split_lines (join_lines (?L @ [''---'', b]))"
    using split_lines_line [of "''---''"] by (simp add: LF_def)
  moreover have "split_lines (join_lines (?L @ [''---'', b]))
      = map strip_cr ?L @ ''---'' # split_lines b"
    using assms by (intro split_join_block) auto
  ultimately show ?thesis
    by (simp add: strip_cr_def CR_def comp_def)
qed

lemma indexOf_closing:
  assumes "x \<notin> set M"
  shows "indexOf (h # M @ x # B) x 1 = Some (Suc (length M))"
  using assms by (simp add: indexOf_def takeWhile_until)

lemma parse_serialized:
  assumes "\<forall>k\<in>fst ` set m. clean_key k \<and> LF \<notin> set (value_text m k)"
  shows "parseFrontMatter (serializeFrontMatter m b)
           = \<lparr>meta = fold (\<lambda>k. AList.update k (norm_text (value_text m k))) (serial_keys m) [],
              body = join_lines (split_lines b)\<rparr>"
proof -
  let ?M = "map (\<lambda>k. strip_cr (meta_line m k)) (serial_keys m)"
  have keys: "\<forall>k\<in>set (serial_keys m). clean_key k \<and> LF \<notin> set (value_text m k)"
    using assms by (simp add: set_serial_keys)
  have lf: "\<forall>k\<in>set (serial_keys m). LF \<notin> set (meta_line m k)"
    using keys by (auto simp: meta_line_def value_text_def clean_key_def LF_def)
  have lines: "split_lines (serializeFrontMatter m b) = ''---'' # ?M @ ''---'' # split_lines b"
    using lf by (rule split_lines_serialized)
  have "CHR '':'' \<in> set l" if "l \<in> set ?M" for l
  proof -
    from that obtain k where "l = strip_cr (meta_line m k)" by auto
    then have "l = k @ '': '' @ strip_cr (value_text m k)"
      using strip_cr_meta_line [of k "value_text m k"]
      by (simp add: meta_line_def value_text_def)
    then show ?thesis by simp
  qed
  then have "''---'' \<notin> set ?M"
  proof (intro notI)
    assume "\<And>l. l \<in> set ?M \<Longrightarrow> CHR '':'' \<in> set l" and "''---'' \<in> set ?M"
    then have "CHR '':'' \<in> set ''---''" by blast
    then show False by simp
  qed
  then have idx: "indexOf (''---'' # ?M @ ''---'' # split_lines b) ''---'' 1 = Some (Suc (length ?M))"
    by (rule indexOf_closing)
  have sl: "slice (''---'' # ?M @ ''---'' # split_lines b) 1 (Suc (length ?M)) = ?M"
    by (simp add: slice_def)
  have dr: "drop (Suc (length ?M) + 1) (''---'' # ?M @ ''---'' # split_lines b) = split_lines b"
    by simp
  have "fold parse_meta_line ?M []
      = fold (\<lambda>k. AList.update k (norm_text (value_text m k))) (serial_keys m) []"
    using keys by (intro fold_parse_written) simp
  then show ?thesis
    unfolding parseFrontMatter_def lines Let_def
    by (simp only: idx sl dr list.case option.case not_not refl not_True_eq_False simp_thms if_False)
qed


text \<open>
  A value that is read back as it was written: \<^verbatim>\<open>null\<close>, or a string that is not empty, is not
  the text \<^verbatim>\<open>null\<close>, and has no white space at its ends and no line feed.
\<close>

definition clean_value :: "string option \<Rightarrow> bool" where
  "clean_value v \<longleftrightarrow>
     (case v of None \<Rightarrow> True
      | Some s \<Rightarrow> s \<noteq> [] \<and> s \<noteq> ''null'' \<and> trim s = s \<and> LF \<notin> set s)"

lemma norm_text_null: "norm_text ''null'' = None"
proof -
  have "trim ''null'' = ''null''"
    by (rule trim_fixed) (simp_all add: is_space_def)
  then show ?thesis
    by (simp add: norm_text_def)
qed

lemma norm_text_clean: "clean_value (Some s) \<Longrightarrow> norm_text s = Some s"
  by (simp add: clean_value_def norm_text_def)

lemma value_text_cases:
  "map_of m k = Some v \<Longrightarrow> value_text m k = (case v of Some s \<Rightarrow> s | None \<Rightarrow> ''null'')"
  by (simp add: value_text_def split: option.splits)

lemma map_of_parse_serialized:
  assumes "\<forall>k\<in>fst ` set m. clean_key k \<and> LF \<notin> set (value_text m k)"
  shows "map_of (meta (parseFrontMatter (serializeFrontMatter m b))) k
           = (if k \<in> fst ` set m then Some (norm_text (value_text m k)) else None)"
  by (simp add: parse_serialized [OF assms] map_of_fold_update set_serial_keys)

section \<open>Updating a card\<close>

text \<open>
  Metadata as \<^const>\<open>parseFrontMatter\<close> returns it, and metadata that
  \<^const>\<open>serializeFrontMatter\<close> writes line by line.
\<close>

definition good_meta :: "metadata \<Rightarrow> bool" where
  "good_meta m \<longleftrightarrow> (\<forall>(k, v)\<in>set m. clean_key k \<and> clean_value v)"

definition writable :: "metadata \<Rightarrow> bool" where
  "writable m \<longleftrightarrow> (\<forall>k\<in>fst ` set m. clean_key k \<and> LF \<notin> set (value_text m k))"

lemma set_update_subset: "set (AList.update k v al) \<subseteq> insert (k, v) (set al)"
  by (induction al) auto

lemma good_meta_update:
  "good_meta m \<Longrightarrow> clean_key k \<Longrightarrow> clean_value v \<Longrightarrow> good_meta (AList.update k v m)"
  using set_update_subset [of k v m] by (auto simp: good_meta_def)

lemma clean_value_norm: "LF \<notin> set s \<Longrightarrow> clean_value (norm_text s)"
  using set_trim [of s] by (auto simp: norm_text_def clean_value_def trim_idem)

lemma norm_text_def': "(if trim v = [] \<or> trim v = ''null'' then None else Some (trim v)) = norm_text v"
  by (simp add: norm_text_def)

lemma good_parse_meta_line:
  assumes "LF \<notin> set line" and "good_meta m"
  shows "good_meta (parse_meta_line line m)"
proof (cases "indexOf line CHR '':'' 0")
  case None
  with assms show ?thesis by (simp add: parse_meta_line_def)
next
  case (Some i)
  then have i: "i = length (takeWhile (\<lambda>y. y \<noteq> CHR '':'') line)"
    by (auto simp: indexOf_def split: if_splits)
  let ?key = "trim (slice line 0 i)"
  let ?val = "trim (drop (i + 1) line)"
  have "slice line 0 i = takeWhile (\<lambda>y. y \<noteq> CHR '':'') line"
    by (simp add: slice_def i takeWhile_eq_take [symmetric])
  then have "CHR '':'' \<notin> set (slice line 0 i)" and "set (slice line 0 i) \<subseteq> set line"
    by (auto dest: set_takeWhileD)
  then have key: "?key \<noteq> [] \<Longrightarrow> clean_key ?key"
    using set_trim [of "slice line 0 i"] assms(1) by (auto simp: clean_key_def trim_idem)
  have "LF \<notin> set (drop (i + 1) line)"
    using assms(1) by (auto dest: in_set_dropD)
  then have "clean_value (norm_text (drop (i + 1) line))"
    by (rule clean_value_norm)
  then have "?key \<noteq> [] \<Longrightarrow> good_meta (AList.update ?key (norm_text (drop (i + 1) line)) m)"
    using key assms(2) by (intro good_meta_update)
  then show ?thesis
    using assms(2) Some by (simp add: parse_meta_line_def Let_def norm_text_def')
qed

lemma good_fold_parse:
  "\<forall>l\<in>set ls. LF \<notin> set l \<Longrightarrow> good_meta acc \<Longrightarrow> good_meta (fold parse_meta_line ls acc)"
  by (induction ls arbitrary: acc) (simp_all add: good_parse_meta_line)

lemma good_meta_Nil: "good_meta []"
  by (simp add: good_meta_def)

lemma good_parseFrontMatter: "good_meta (meta (parseFrontMatter content))"
proof -
  have "\<forall>l\<in>set (slice (split_lines content) 1 e). LF \<notin> set l" for e
    using split_lines_no_LF [of _ content]
    by (auto simp: slice_def dest!: in_set_takeD in_set_dropD)
  then have "good_meta (fold parse_meta_line (slice (split_lines content) 1 e) [])" for e
    by (intro good_fold_parse good_meta_Nil)
  then show ?thesis
    by (auto simp: parseFrontMatter_def Let_def good_meta_Nil split: option.splits list.splits)
qed

lemma good_writable: "good_meta m \<Longrightarrow> writable m"
proof -
  assume g: "good_meta m"
  have "clean_key k \<and> LF \<notin> set (value_text m k)" if "k \<in> fst ` set m" for k
  proof -
    from that obtain v where v: "map_of m k = Some v"
      by (cases "map_of m k") (auto simp: map_of_eq_None_iff)
    then have "(k, v) \<in> set m"
      by (rule map_of_SomeD)
    with g have "clean_key k" and "clean_value v"
      by (auto simp: good_meta_def)
    then show ?thesis
      using v by (cases v) (auto simp: value_text_def clean_value_def LF_def)
  qed
  then show ?thesis
    by (simp add: writable_def)
qed

lemma writable_update:
  assumes "writable m" and "clean_key k" and "case v of Some s \<Rightarrow> LF \<notin> set s | None \<Rightarrow> True"
  shows "writable (AList.update k v m)"
proof -
  have "value_text (AList.update k v m) k'
          = (if k' = k then (case v of Some s \<Rightarrow> s | None \<Rightarrow> ''null'') else value_text m k')" for k'
    by (simp add: value_text_def update_conv' split: option.splits)
  then show ?thesis
    using assms by (auto simp: writable_def dom_update LF_def split: option.splits)
qed

lemma good_meta_value:
  "good_meta m \<Longrightarrow> map_of m k = Some (Some s) \<Longrightarrow> clean_value (Some s)"
  by (auto simp: good_meta_def dest!: map_of_SomeD)

lemma known_keys_clean:
  "clean_key ''id''" "clean_key ''title''" "clean_key ''due''" "clean_key ''createdAt''"
  "clean_key ''updatedAt''"
  by code_simp+

lemma meta_truthy_Some:
  "meta_truthy m k = Some v \<longleftrightarrow> map_of m k = Some (Some v) \<and> v \<noteq> []"
  by (auto simp: meta_truthy_def meta_string_def split: option.splits)


lemma readFile_writeFile:
  "readFile (writeFile now name content fs) name
     = Some \<lparr>data = content,
             ctime = (case readFile fs name of Some e \<Rightarrow> ctime e | None \<Rightarrow> now),
             mtime = now\<rparr>"
  by (simp add: readFile_def writeFile_def update_conv')

lemma writeFile_frame:
  "index_file (writeFile now name content fs) = index_file fs"
  "cards_listable (writeFile now name content fs) = cards_listable fs"
  "name' \<noteq> name \<Longrightarrow> map_of (cards_dir (writeFile now name content fs)) name' = map_of (cards_dir fs) name'"
  "readFile fs name = Some e \<Longrightarrow> map fst (cards_dir (writeFile now name content fs)) = map fst (cards_dir fs)"
proof -
  show "index_file (writeFile now name content fs) = index_file fs"
    and "cards_listable (writeFile now name content fs) = cards_listable fs"
    by (simp_all add: writeFile_def)
  show "name' \<noteq> name \<Longrightarrow> map_of (cards_dir (writeFile now name content fs)) name' = map_of (cards_dir fs) name'"
    by (simp add: writeFile_def update_conv')
  assume "readFile fs name = Some e"
  then have "map_of (cards_dir fs) name \<noteq> None"
    by (auto simp: readFile_def split: option.splits)
  then have "name \<in> fst ` set (cards_dir fs)"
    by (simp add: map_of_eq_None_iff)
  then show "map fst (cards_dir (writeFile now name content fs)) = map fst (cards_dir fs)"
    by (simp add: writeFile_def update_keys)
qed


text \<open>
  A card file written by hand, without front matter, and a card file as the program writes it.
\<close>

definition plain_card_fs :: filesystem where
  "plain_card_fs =
     \<lparr>index_file = None,
      cards_dir = [(''c.md'', File \<lparr>data = ''Hello'', ctime = ''T0'', mtime = ''T0''\<rparr>)],
      cards_listable = True\<rparr>"

definition stored_card_fs :: filesystem where
  "stored_card_fs =
     \<lparr>index_file = None,
      cards_dir =
        [(''c.md'',
          File \<lparr>data = serializeFrontMatter
                          [(''id'', Some ''c''), (''title'', Some ''First''), (''due'', None),
                           (''createdAt'', Some ''T0''), (''updatedAt'', Some ''T0'')] ''Hello'',
                 ctime = ''T0'', mtime = ''T0''\<rparr>)],
      cards_listable = True\<rparr>"

section \<open>Claims\<close>

text \<open>
  C1, as stated, fails: a carriage return and line feed in the body come back as a line feed;
  a value that is the text \<^verbatim>\<open>null\<close> comes back as \<^verbatim>\<open>null\<close>; a value loses the white space at its
  ends; and a value with a line break can close the metadata block early, which changes the
  body as well.
\<close>

theorem counterexample_front_matter_round_trip:
  "body (parseFrontMatter (serializeFrontMatter [] [CHR ''a'', CR, LF, CHR ''b'']))
     = [CHR ''a'', LF, CHR ''b''] \<and>
   map_of (meta (parseFrontMatter (serializeFrontMatter [(''title'', Some ''null'')] ''text'')))
     ''title'' = Some None \<and>
   map_of (meta (parseFrontMatter (serializeFrontMatter [(''title'', Some '' x'')] ''text'')))
     ''title'' = Some (Some ''x'') \<and>
   parseFrontMatter (serializeFrontMatter [(''k'', Some [CHR ''v'', LF, CHR ''-'', CHR ''-'', CHR ''-''])] ''text'')
     = \<lparr>meta = [(''k'', Some ''v'')], body = [CHR ''-'', CHR ''-'', CHR ''-'', LF, CHR ''t'', CHR ''e'', CHR ''x'', CHR ''t'']\<rparr>"
  by code_simp

text \<open>
  C1, amended. Let every key of \<open>m\<close> be non-empty, free of colons and line feeds, without white
  space at its ends and not \<^verbatim>\<open>__proto__\<close> (a key the model does not cover), let every value be
  \<^verbatim>\<open>null\<close> or a non-empty string other than the text \<^verbatim>\<open>null\<close> without white space at its ends
  and without line feeds, and let no carriage return in the body \<open>b\<close> be followed directly by a
  line feed. Then parsing the serialized text returns a metadata mapping equal to \<open>m\<close> and a
  body equal to \<open>b\<close>; colons and blank lines in the body do no harm.
\<close>

theorem front_matter_round_trip:
  assumes "\<forall>(k, v)\<in>set m. clean_key k \<and> k \<noteq> ''__proto__'' \<and> clean_value v"
    and "\<not> has_crlf b"
  shows "map_of (meta (parseFrontMatter (serializeFrontMatter m b))) = map_of m
       \<and> body (parseFrontMatter (serializeFrontMatter m b)) = b"
proof -
  have val: "clean_value v \<and> value_text m k = (case v of Some s \<Rightarrow> s | None \<Rightarrow> ''null'')"
    if "map_of m k = Some v" for k v
    using that assms(1) map_of_SomeD [OF that] by (auto simp: value_text_cases)
  have keys: "\<forall>k\<in>fst ` set m. clean_key k \<and> LF \<notin> set (value_text m k)"
  proof
    fix k assume k: "k \<in> fst ` set m"
    then obtain v where v: "map_of m k = Some v"
      by (cases "map_of m k") (auto simp: map_of_eq_None_iff)
    have "clean_key k"
      using assms(1) k by auto
    moreover have "LF \<notin> set (value_text m k)"
      using val [OF v] by (cases v) (auto simp: clean_value_def LF_def)
    ultimately show "clean_key k \<and> LF \<notin> set (value_text m k)" ..
  qed
  have "map_of (meta (parseFrontMatter (serializeFrontMatter m b))) k = map_of m k" for k
  proof (cases "map_of m k")
    case None
    then have "k \<notin> fst ` set m"
      by (simp add: map_of_eq_None_iff)
    with None show ?thesis
      by (simp add: map_of_parse_serialized [OF keys])
  next
    case (Some v)
    then have "k \<in> fst ` set m"
      using map_of_SomeD [OF Some] by force
    moreover have "norm_text (value_text m k) = v"
      using val [OF Some] by (cases v) (simp_all add: norm_text_null norm_text_clean)
    ultimately show ?thesis
      using Some by (simp add: map_of_parse_serialized [OF keys])
  qed
  moreover have "body (parseFrontMatter (serializeFrontMatter m b)) = b"
    using assms(2) by (simp add: parse_serialized [OF keys] join_split_lines)
  ultimately show ?thesis
    by auto
qed

theorem front_matter_round_trip_witness:
  "list_all (\<lambda>(k, v). clean_key k \<and> k \<noteq> ''__proto__'' \<and> clean_value v)
      [(''title'', Some ''Hello: world''), (''id'', Some ''1''), (''extra'', Some ''note''),
       (''due'', None)] \<and>
   \<not> has_crlf (''Line: one'' @ [LF, LF] @ ''---'' @ [LF] @ ''end'') \<and>
   map_of (meta (parseFrontMatter (serializeFrontMatter
      [(''title'', Some ''Hello: world''), (''id'', Some ''1''), (''extra'', Some ''note''), (''due'', None)]
      (''Line: one'' @ [LF, LF] @ ''---'' @ [LF] @ ''end''))))
     = map_of [(''title'', Some ''Hello: world''), (''id'', Some ''1''), (''extra'', Some ''note''),
               (''due'', None)] \<and>
   body (parseFrontMatter (serializeFrontMatter
      [(''title'', Some ''Hello: world''), (''id'', Some ''1''), (''extra'', Some ''note''), (''due'', None)]
      (''Line: one'' @ [LF, LF] @ ''---'' @ [LF] @ ''end'')))
     = ''Line: one'' @ [LF, LF] @ ''---'' @ [LF] @ ''end''"
proof -
  let ?m = "[(''title'', Some ''Hello: world''), (''id'', Some ''1''), (''extra'', Some ''note''),
             (''due'', None)]"
  let ?b = "''Line: one'' @ [LF, LF] @ ''---'' @ [LF] @ ''end''"
  have l: "list_all (\<lambda>(k, v). clean_key k \<and> k \<noteq> ''__proto__'' \<and> clean_value v) ?m"
    by code_simp
  then have m: "\<forall>(k, v)\<in>set ?m. clean_key k \<and> k \<noteq> ''__proto__'' \<and> clean_value v"
    by (simp only: list_all_iff)
  have b: "\<not> has_crlf ?b"
    by code_simp
  note w = front_matter_round_trip [OF m b]
  show ?thesis
    by (rule conjI [OF l conjI [OF b w]])
qed







text \<open>
  C6, as stated, fails for a columns array in which two columns share an id (an index file
  edited by hand; \<^const>\<open>normalizeIndex\<close> keeps both): the \<^verbatim>\<open>Map\<close> keyed by id holds one of
  them only, and the other is lost.
\<close>

theorem reorderColumns_duplicate_ids_counterexample:
  "columns (fst (readIndex duplicate_id_fs))
     = [\<lparr>column_id = ''a'', column_title = ''A1''\<rparr>, \<lparr>column_id = ''a'', column_title = ''A2''\<rparr>] \<and>
   index_file (snd (reorderColumns [(''orderedIds'', JArr [])] duplicate_id_fs))
     = Some (Parsed (index_json
         \<lparr>columns = [\<lparr>column_id = ''a'', column_title = ''A2''\<rparr>], order = [(''a'', [])]\<rparr>))"
proof -
  have r: "readIndex duplicate_id_fs
      = (\<lparr>columns = [\<lparr>column_id = ''a'', column_title = ''A1''\<rparr>,
                     \<lparr>column_id = ''a'', column_title = ''A2''\<rparr>],
          order = [(''a'', [])], order_proto = None, columns_shared = False\<rparr>,
         duplicate_id_fs)"
    by (simp add: readIndex_def duplicate_id_fs_def normalizeIndex_def normalize_body_def
        normalize_columns_def normalize_order_def raw_order_def raw_list_def parse_column_def
        string_entries_def assign_word)
  show ?thesis
    unfolding reorderColumns_def r
    by (simp add: string_list_field_def string_entries_def reorder_def column_map_def
        writeIndex_def index_json_def)
qed

text \<open>
  C6, amended. For every starting columns array with pairwise distinct ids and every list
  \<^verbatim>\<open>orderedIds\<close>, \<^const>\<open>reorderColumns\<close> persists a permutation of the columns: the columns that
  \<^verbatim>\<open>orderedIds\<close> names come first, in the order of their first mention (ids that match no column
  are ignored), and the columns it does not mention follow in their original relative order.
\<close>

theorem reorderColumns_permutation:
  assumes "string_list_field d ''orderedIds'' = Some orderedIds"
    and "readIndex fs = (index, fs1)"
    and "distinct (map column_id (columns index))"
  shows "reorderColumns d fs
           = (Inr (),
              writeIndex
                (index\<lparr>columns := matched (columns index) orderedIds
                                    @ filter (\<lambda>c. column_id c \<notin> set orderedIds) (columns index)\<rparr>)
                fs1)
         \<and> mset (matched (columns index) orderedIds
                  @ filter (\<lambda>c. column_id c \<notin> set orderedIds) (columns index))
             = mset (columns index)"
  using assms mset_reorder [OF assms(3), of orderedIds]
  by (simp add: reorderColumns_def reorder_closed_form)

theorem reorderColumns_permutation_witness:
  "string_list_field [(''orderedIds'', JArr [JStr ''done'', JStr ''x'', JNum (Fin 3), JStr ''todo'', JStr ''done''])]
      ''orderedIds'' = Some [''done'', ''x'', ''todo'', ''done''] \<and>
   distinct (map column_id (columns (normalize_body DEFAULT_COLUMNS (JObj [])))) \<and>
   reorderColumns [(''orderedIds'', JArr [JStr ''done'', JStr ''x'', JNum (Fin 3), JStr ''todo'', JStr ''done''])]
      empty_fs
     = (Inr (),
        writeIndex
          \<lparr>columns = [\<lparr>column_id = ''done'', column_title = ''Done''\<rparr>,
                      \<lparr>column_id = ''todo'', column_title = ''TODO''\<rparr>,
                      \<lparr>column_id = ''doing'', column_title = ''Doing''\<rparr>],
           order = [(''todo'', []), (''doing'', []), (''done'', [])]\<rparr>
          (writeIndex (normalize_body DEFAULT_COLUMNS (JObj [])) empty_fs))"
proof -
  let ?d = "[(''orderedIds'', JArr [JStr ''done'', JStr ''x'', JNum (Fin 3), JStr ''todo'', JStr ''done''])]"
  have f: "string_list_field ?d ''orderedIds'' = Some [''done'', ''x'', ''todo'', ''done'']"
    by (simp add: string_list_field_def string_entries_def)
  have dist: "distinct (map column_id (columns (normalize_body DEFAULT_COLUMNS (JObj []))))"
    by (simp add: normalize_body_defaults DEFAULT_COLUMNS_def)
  show ?thesis
    using reorderColumns_permutation [OF f readIndex_empty_fs dist] f dist
    by (simp add: normalize_body_defaults DEFAULT_COLUMNS_def matched_def set_add_def
        writeIndex_def index_json_def)
qed

text \<open>
  C7, as stated, fails. For a card file without a \<^verbatim>\<open>createdAt\<close> line (a file written by hand)
  the card's \<^verbatim>\<open>createdAt\<close> is the file's creation time before the update and the time of the
  update after it. And the title is stored trimmed, so it equals the input only up to the
  white space at its ends.
\<close>

theorem updateCard_counterexample:
  "map_option createdAt (loadCard plain_card_fs ''c'') = Some ''T0'' \<and>
   map_option createdAt
     (loadCard (snd (updateCard ''T1''
        [(''cardId'', JStr ''c''), (''title'', JStr ''Updated''), (''detail'', JStr ''Next'')]
        plain_card_fs)) ''c'') = Some ''T1'' \<and>
   map_option title
     (loadCard (snd (updateCard ''T1''
        [(''cardId'', JStr ''c''), (''title'', JStr '' Padded ''), (''detail'', JStr ''Next'')]
        plain_card_fs)) ''c'') = Some ''Padded''"
  by code_simp

text \<open>
  C7, amended. Let the card's file exist and carry a non-empty \<^verbatim>\<open>createdAt\<close> in its front
  matter. Let the new title, trimmed, be non-blank, free of line feeds and not the text
  \<^verbatim>\<open>null\<close>; let no carriage return in the new detail be followed directly by a line feed; let
  the card id and the due date have no line feed, and let the time stamp be a clean value.
  Then \<^const>\<open>updateCard\<close> succeeds; the card's \<^verbatim>\<open>createdAt\<close> is what it was, its \<^verbatim>\<open>updatedAt\<close>
  is the time stamp of the operation, its title is the trimmed input and its detail is the
  input; the index file and every other entry of the cards directory are as before.
\<close>

theorem updateCard_preserves_createdAt:
  assumes "string_field d ''cardId'' = Some cardId" and "cardId \<noteq> []" and "LF \<notin> set cardId"
    and "string_field d ''title'' = Some newTitle"
    and "trim newTitle \<noteq> []" and "LF \<notin> set (trim newTitle)" and "trim newTitle \<noteq> ''null''"
    and "string_field d ''detail'' = Some newDetail" and "\<not> has_crlf newDetail"
    and "case string_field d ''due'' of Some v \<Rightarrow> LF \<notin> set v | None \<Rightarrow> True"
    and "clean_value (Some now)"
    and "readFile fs (card_file cardId) = Some existing"
    and "meta_truthy (meta (parseFrontMatter (data existing))) ''createdAt'' = Some created"
  shows "fst (updateCard now d fs) = Inr ()
       \<and> (\<exists>before after.
             loadCard fs cardId = Some before
           \<and> loadCard (snd (updateCard now d fs)) cardId = Some after
           \<and> createdAt before = created \<and> createdAt after = created
           \<and> updatedAt after = now
           \<and> title after = trim newTitle
           \<and> detail after = newDetail)
       \<and> index_file (snd (updateCard now d fs)) = index_file fs
       \<and> map fst (cards_dir (snd (updateCard now d fs))) = map fst (cards_dir fs)
       \<and> (\<forall>name. name \<noteq> card_file cardId
             \<longrightarrow> map_of (cards_dir (snd (updateCard now d fs))) name = map_of (cards_dir fs) name)"
proof -
  define m0 where "m0 = meta (parseFrontMatter (data existing))"
  define dueValue where "dueValue = (case string_field d ''due'' of
      Some v \<Rightarrow> if trim v \<noteq> [] then Some v else None | None \<Rightarrow> None)"
  define m1 where "m1 = AList.update ''id'' (Some cardId) m0"
  define m2 where "m2 = AList.update ''title'' (Some (trim newTitle)) m1"
  define m3 where "m3 = AList.update ''due'' dueValue m2"
  define m4 where "m4 = AList.update ''createdAt'' (Some created) m3"
  define m5 where "m5 = AList.update ''updatedAt'' (Some now) m4"
  define content where "content = serializeFrontMatter m5 newDetail"
  define fs' where "fs' = writeFile now (card_file cardId) content fs"
  have c0: "map_of m0 ''createdAt'' = Some (Some created)" and cne: "created \<noteq> []"
    using assms(13) by (simp_all add: meta_truthy_Some m0_def)
  have "map_of m3 ''createdAt'' = Some (Some created)"
    using c0 by (simp add: m3_def m2_def m1_def update_conv')
  then have t3: "meta_truthy m3 ''createdAt'' = Some created"
    using cne by (simp add: meta_truthy_Some)
  have run: "updateCard now d fs = (Inr (), fs')"
    using assms(1,2,4,5,8,12) t3
    by (simp add: updateCard_def Let_def fs'_def content_def m5_def m4_def m3_def m2_def m1_def
        m0_def dueValue_def)
  have g0: "good_meta m0"
    by (simp add: m0_def good_parseFrontMatter)
  have created: "clean_value (Some created)"
    using g0 c0 by (rule good_meta_value)
  have dueLF: "case dueValue of Some s \<Rightarrow> LF \<notin> set s | None \<Rightarrow> True"
    using assms(10) by (auto simp: dueValue_def split: option.splits)
  have w5: "writable m5"
    unfolding m5_def m4_def m3_def m2_def m1_def
    using assms(3,6,11) created dueLF
    by (intro writable_update good_writable g0 known_keys_clean) (simp_all add: clean_value_def)
  then have keys: "\<forall>k\<in>fst ` set m5. clean_key k \<and> LF \<notin> set (value_text m5 k)"
    by (simp add: writable_def)
  define parsed where "parsed = parseFrontMatter content"
  have body: "body parsed = newDetail"
    using assms(9) by (simp add: parsed_def content_def parse_serialized [OF keys] join_split_lines)
  have look: "map_of (meta parsed) k
      = (if k \<in> fst ` set m5 then Some (norm_text (value_text m5 k)) else None)" for k
    by (simp add: parsed_def content_def map_of_parse_serialized [OF keys])
  have in5: "''title'' \<in> fst ` set m5" "''createdAt'' \<in> fst ` set m5" "''updatedAt'' \<in> fst ` set m5"
    by (simp_all add: m5_def m4_def m3_def m2_def dom_update)
  have v5: "value_text m5 ''title'' = trim newTitle" "value_text m5 ''createdAt'' = created"
    "value_text m5 ''updatedAt'' = now"
    by (simp_all add: value_text_def m5_def m4_def m3_def m2_def update_conv')
  have "norm_text (trim newTitle) = Some (trim newTitle)"
    using assms(5,7) by (simp add: norm_text_def trim_idem)
  then have pt: "meta_string (meta parsed) ''title'' = Some (trim newTitle)"
    by (simp add: meta_string_def look in5 v5)
  have pc: "meta_truthy (meta parsed) ''createdAt'' = Some created"
    using norm_text_clean [OF created] cne by (simp add: meta_truthy_Some look in5 v5)
  have pu: "meta_truthy (meta parsed) ''updatedAt'' = Some now"
    using norm_text_clean [OF assms(11)] assms(11)
    by (simp add: meta_truthy_Some look in5 v5 clean_value_def)
  have rf: "readFile fs' (card_file cardId)
      = Some \<lparr>data = content, ctime = ctime existing, mtime = now\<rparr>"
    by (simp add: fs'_def readFile_writeFile assms(12))
  obtain after where after: "loadCard fs' cardId = Some after"
    by (simp add: loadCard_def rf Let_def)
  have a: "createdAt after = created" "updatedAt after = now" "title after = trim newTitle"
    "detail after = newDetail"
    using after assms(5) pt pc pu body
    by (auto simp: loadCard_def rf Let_def parsed_def trim_idem)
  obtain before where before: "loadCard fs cardId = Some before"
    by (simp add: loadCard_def assms(12) Let_def)
  have b: "createdAt before = created"
    using before assms(13) by (auto simp: loadCard_def assms(12) Let_def)
  have frame: "index_file fs' = index_file fs"
    "map fst (cards_dir fs') = map fst (cards_dir fs)"
    "\<forall>name. name \<noteq> card_file cardId \<longrightarrow> map_of (cards_dir fs') name = map_of (cards_dir fs) name"
    using writeFile_frame(4) [OF assms(12)]
    by (simp_all add: fs'_def writeFile_frame(1,3))
  have cards: "\<exists>before after.
             loadCard fs cardId = Some before
           \<and> loadCard fs' cardId = Some after
           \<and> createdAt before = created \<and> createdAt after = created
           \<and> updatedAt after = now
           \<and> title after = trim newTitle
           \<and> detail after = newDetail"
    using before after a b by blast
  show ?thesis
    unfolding run fst_conv snd_conv
    by (rule conjI [OF refl conjI [OF cards conjI [OF frame(1) conjI [OF frame(2) frame(3)]]]])
qed

theorem updateCard_preserves_createdAt_witness:
  "fst (updateCard ''T1''
          [(''cardId'', JStr ''c''), (''title'', JStr ''Updated''), (''detail'', JStr ''Next'')]
          stored_card_fs) = Inr ()
   \<and> (\<exists>before after.
         loadCard stored_card_fs ''c'' = Some before
       \<and> loadCard (snd (updateCard ''T1''
            [(''cardId'', JStr ''c''), (''title'', JStr ''Updated''), (''detail'', JStr ''Next'')]
            stored_card_fs)) ''c'' = Some after
       \<and> createdAt before = ''T0'' \<and> createdAt after = ''T0''
       \<and> updatedAt after = ''T1''
       \<and> title after = trim ''Updated''
       \<and> detail after = ''Next'')
   \<and> trim ''Updated'' = ''Updated''"
proof -
  let ?d = "[(''cardId'', JStr ''c''), (''title'', JStr ''Updated''), (''detail'', JStr ''Next'')]"
  let ?existing = "\<lparr>data = serializeFrontMatter
                          [(''id'', Some ''c''), (''title'', Some ''First''), (''due'', None),
                           (''createdAt'', Some ''T0''), (''updatedAt'', Some ''T0'')] ''Hello'',
                 ctime = ''T0'', mtime = ''T0''\<rparr>"
  have h: "string_field ?d ''cardId'' = Some ''c''" "''c'' \<noteq> []" "LF \<notin> set ''c''"
    "string_field ?d ''title'' = Some ''Updated''"
    "trim ''Updated'' \<noteq> []" "LF \<notin> set (trim ''Updated'')" "trim ''Updated'' \<noteq> ''null''"
    "string_field ?d ''detail'' = Some ''Next''" "\<not> has_crlf ''Next''"
    "case string_field ?d ''due'' of Some v \<Rightarrow> LF \<notin> set v | None \<Rightarrow> True"
    "clean_value (Some ''T1'')"
    "readFile stored_card_fs (card_file ''c'') = Some ?existing"
    "meta_truthy (meta (parseFrontMatter (data ?existing))) ''createdAt'' = Some ''T0''"
    by code_simp+
  note w = updateCard_preserves_createdAt [OF h]
  have t: "trim ''Updated'' = ''Updated''"
    by code_simp
  show ?thesis
    by (rule conjI [OF w [THEN conjunct1] conjI [OF w [THEN conjunct2, THEN conjunct1] t]])
qed

text \<open>
  C8. For every finite list of existing columns and every base id, \<^const>\<open>ensureUniqueColumnId\<close>
  is a total function (its loop terminates); it returns the base id when no column has it, and
  otherwise the first of base-1, base-2, ... that no column has. With the columns
  \<open>todo\<close> and \<open>todo-1\<close> and the base \<open>todo\<close> it returns \<open>todo-2\<close>.
\<close>

theorem ensureUniqueColumnId_first_free:
  "(baseId \<notin> column_id ` set cols \<longrightarrow> ensureUniqueColumnId cols baseId = baseId) \<and>
   (baseId \<in> column_id ` set cols \<longrightarrow>
      (\<exists>k\<ge>1. ensureUniqueColumnId cols baseId = suffixed baseId k
          \<and> suffixed baseId k \<notin> column_id ` set cols
          \<and> (\<forall>j. 1 \<le> j \<and> j < k \<longrightarrow> suffixed baseId j \<in> column_id ` set cols))) \<and>
   ensureUniqueColumnId
     [\<lparr>column_id = ''todo'', column_title = ''TODO''\<rparr>, \<lparr>column_id = ''todo-1'', column_title = ''TODO 1''\<rparr>] ''todo''
     = ''todo-2''"
proof (intro conjI impI)
  assume "baseId \<notin> column_id ` set cols"
  then show "ensureUniqueColumnId cols baseId = baseId"
    by (simp add: ensureUniqueColumnId_def unique_loop_free)
next
  assume "baseId \<in> column_id ` set cols"
  then have "baseId \<in> set (map column_id cols)" by simp
  from unique_loop_taken [OF this, of 1 baseId]
  show "\<exists>k\<ge>1. ensureUniqueColumnId cols baseId = suffixed baseId k
          \<and> suffixed baseId k \<notin> column_id ` set cols
          \<and> (\<forall>j. 1 \<le> j \<and> j < k \<longrightarrow> suffixed baseId j \<in> column_id ` set cols)"
    by (simp add: ensureUniqueColumnId_def)
next
  show "ensureUniqueColumnId
     [\<lparr>column_id = ''todo'', column_title = ''TODO''\<rparr>, \<lparr>column_id = ''todo-1'', column_title = ''TODO 1''\<rparr>] ''todo''
     = ''todo-2''"
    by (simp add: ensureUniqueColumnId_def unique_loop.simps suffixed_def show_nat.simps
        digit_char_def)
qed

theorem ensureUniqueColumnId_first_free_witness:
  "''b'' \<notin> column_id ` set [\<lparr>column_id = ''a'', column_title = ''A''\<rparr>] \<and>
   ensureUniqueColumnId [\<lparr>column_id = ''a'', column_title = ''A''\<rparr>] ''b'' = ''b'' \<and>
   ''a'' \<in> column_id ` set [\<lparr>column_id = ''a'', column_title = ''A''\<rparr>] \<and>
   (\<exists>k\<ge>1. ensureUniqueColumnId [\<lparr>column_id = ''a'', column_title = ''A''\<rparr>] ''a'' = suffixed ''a'' k
      \<and> suffixed ''a'' k \<notin> column_id ` set [\<lparr>column_id = ''a'', column_title = ''A''\<rparr>])"
proof -
  have free: "''b'' \<notin> column_id ` set [\<lparr>column_id = ''a'', column_title = ''A''\<rparr>]" by simp
  have taken: "''a'' \<in> column_id ` set [\<lparr>column_id = ''a'', column_title = ''A''\<rparr>]" by simp
  have "ensureUniqueColumnId [\<lparr>column_id = ''a'', column_title = ''A''\<rparr>] ''b'' = ''b''"
    using ensureUniqueColumnId_first_free [of "''b''" "[\<lparr>column_id = ''a'', column_title = ''A''\<rparr>]"] free
    by blast
  moreover have "\<exists>k\<ge>1. ensureUniqueColumnId [\<lparr>column_id = ''a'', column_title = ''A''\<rparr>] ''a'' = suffixed ''a'' k
      \<and> suffixed ''a'' k \<notin> column_id ` set [\<lparr>column_id = ''a'', column_title = ''A''\<rparr>]"
    using ensureUniqueColumnId_first_free [of "''a''" "[\<lparr>column_id = ''a'', column_title = ''A''\<rparr>]"] taken
    by blast
  ultimately show ?thesis
    using free taken by blast
qed




end
